theory Spec2Isabelle
  imports Complex_Main "HOL-Library.Word"
begin

unbundle bit_operations_syntax

section \<open>EGB240 digital voice recorder: the streaming core\<close>

text \<open>
  The repository holds three revisions of the same translation unit:
  \<^item> \<open>src/main.c\<close>, header "Version: v1.1";
  \<^item> \<open>src/unnamed/part_000\<close>, header "Version: v1.2";
  \<^item> \<open>src/unnamed/part_001\<close>, header "Version: v1.3".
  The functions below take the revision as a parameter and branch on it only at the
  statements where the three texts differ.
\<close>

datatype version = V1_1 | V1_2 | V1_3

type_synonym u8 = "8 word"
type_synonym u16 = "16 word"
type_synonym u32 = "32 word"

subsection \<open>Constants of the source\<close>

text \<open>The anonymous enum of the three revisions.\<close>

definition DVR_STOPPED :: u8 where "DVR_STOPPED = 0"
definition DVR_RECORDING :: u8 where "DVR_RECORDING = 1"
definition DVR_PLAYING :: u8 where "DVR_PLAYING = 2"

text \<open>\<open>#define pageSize 512\<close> (v1.3; the older revisions write the literal 512).\<close>

definition pageSize :: nat where "pageSize = 512"

text \<open>
  Pin numbers of \<open>avr/io.h\<close>, which is not part of the repository. v1.1 writes the
  record and play tests with the literals \<open>(1 << 5)\<close> and \<open>(1 << 4)\<close> where v1.2 and
  v1.3 write \<open>PF5\<close> and \<open>PF4\<close>.
\<close>

definition PF4 :: nat where "PF4 = 4"
definition PF5 :: nat where "PF5 = 5"
definition PF6 :: nat where "PF6 = 6"
definition PD1 :: nat where "PD1 = 1"
definition PD2 :: nat where "PD2 = 2"
definition PD3 :: nat where "PD3 = 3"
definition PD4 :: nat where "PD4 = 4"

subsection \<open>State\<close>

text \<open>
  Calls into the collaborator modules (buffer, wave, adc, console), in program order.
  \<open>debunce\<close> is spelled as v1.3 calls it.
\<close>

datatype call =
    Buffer_reset | Buffer_writePage | Buffer_readPage
  | Wave_create | Wave_open | Wave_read nat | Wave_write nat | Wave_close
  | Adc_start | Adc_stop
  | Printf string
  | Debunce nat

text \<open>
  The globals of the translation unit, the local \<open>state\<close> of \<open>main\<close>, the registers the
  core writes, and what it sees of its collaborators:
  \<^item> \<open>buf_stream\<close> and \<open>buf_pos\<close>: the bytes that successive \<open>buffer_dequeue()\<close> calls
    return since the last \<open>buffer_reset()\<close>, and how many have been taken;
  \<^item> \<open>emitted\<close>: every value written to \<open>OCR4B\<close> by the interrupt handler, oldest first;
  \<^item> \<open>calls\<close>: the collaborator calls made so far, oldest first.
\<close>

record dvr =
  state :: u8
  pageCount :: u16
  newPage :: u16
  stop :: u8
  data_amount :: u32
  played :: u8
  first_que :: u8
  second_que :: u8
  first_played :: u8
  second_played :: u8
  OCR4B :: u8
  TIMSK4 :: u8
  TCCR4A :: u8
  PORTB :: u8
  PORTD :: u8
  buf_stream :: "nat \<Rightarrow> u8"
  buf_pos :: nat
  emitted :: "u8 list"
  calls :: "call list"

definition call :: "call \<Rightarrow> dvr \<Rightarrow> dvr" where
  "call c s = s\<lparr>calls := calls s @ [c]\<rparr>"

subsection \<open>PWM start and stop\<close>

definition start_pwm :: "dvr \<Rightarrow> dvr" where
  "start_pwm s = s\<lparr>TIMSK4 := 0x04, TCCR4A := 0x21\<rparr>"

definition stop_pwm :: "dvr \<Rightarrow> dvr" where
  "stop_pwm s = s\<lparr>TIMSK4 := 0x00, TCCR4A := 0x20\<rparr>"

subsection \<open>Callbacks of the circular buffer\<close>

text \<open>
  \<open>if(!(--pageCount)) { adc_stop(); stop = 1; } else { newPage = 1; }\<close>,
  the same text in the three revisions. \<open>pageCount\<close> is a \<open>uint16_t\<close>.
\<close>

definition pageFull :: "dvr \<Rightarrow> dvr" where
  "pageFull s0 =
     (let s = s0\<lparr>pageCount := pageCount s0 - 1\<rparr> in
      if pageCount s = 0 then (call Adc_stop s)\<lparr>stop := 1\<rparr>
      else s\<lparr>newPage := 1\<rparr>)"

text \<open>
  The constant \<open>data_amount\<close> is compared with: \<open>512\<close> in v1.1, \<open>2048\<close> in v1.2,
  \<open>(4*pageSize)\<close> in v1.3.
\<close>

fun pageEmpty_limit :: "version \<Rightarrow> u32" where
  "pageEmpty_limit V1_1 = 512"
| "pageEmpty_limit V1_2 = 2048"
| "pageEmpty_limit V1_3 = of_nat (4 * pageSize)"

definition pageEmpty :: "version \<Rightarrow> dvr \<Rightarrow> dvr" where
  "pageEmpty v s = (if data_amount s > pageEmpty_limit v then s\<lparr>newPage := 1\<rparr> else s)"

subsection \<open>The buffer module, as far as the core depends on it\<close>

text \<open>
  Modelled from the spec: \<open>buffer.c\<close> is not among the sources. The spec describes a
  module that "owns page-sized chunks of samples, exposes enqueue/dequeue of single
  samples" and "invokes two callbacks (page became full, page became empty)
  synchronously"; a page is a "fixed-size (512-sample) block". \<open>buffer_dequeue\<close> hands
  out the next byte and calls \<open>pageEmpty\<close> when that byte was the last of its page;
  \<open>buffer_reset\<close> starts the count again.
\<close>

definition buffer_dequeue :: "version \<Rightarrow> dvr \<Rightarrow> u8 \<times> dvr" where
  "buffer_dequeue v s =
     (let x = buf_stream s (buf_pos s);
          s1 = s\<lparr>buf_pos := Suc (buf_pos s)\<rparr>
      in (x, if buf_pos s1 mod pageSize = 0 then pageEmpty v s1 else s1))"

definition buffer_reset :: "dvr \<Rightarrow> dvr" where
  "buffer_reset s = call Buffer_reset (s\<lparr>buf_pos := 0\<rparr>)"

subsection \<open>The interpolated midpoint\<close>

text \<open>
  \<open>OCR4B = (first_que+second_que)/2.0;\<close> The two \<open>uint8_t\<close> operands are promoted to
  \<open>int\<close> and added (at most 510), the sum is divided by the floating constant, and the
  quotient is converted to the 8-bit register, which discards the fraction. A half of
  an integer below 1024 is exact in binary floating point, so the quotient is the
  real number.
\<close>

definition double_to_u8 :: "real \<Rightarrow> u8" where
  "double_to_u8 x = word_of_int (if x < 0 then \<lceil>x\<rceil> else \<lfloor>x\<rfloor>)"

definition midpoint :: "u8 \<Rightarrow> u8 \<Rightarrow> u8" where
  "midpoint a b = double_to_u8 (real_of_int (uint a + uint b) / 2)"

subsection \<open>The timer interrupt\<close>

definition emit :: "u8 \<Rightarrow> dvr \<Rightarrow> dvr" where
  "emit x s = s\<lparr>OCR4B := x, emitted := emitted s @ [x]\<rparr>"

text \<open>
  \<open>ISR(TIMER4_OVF_vect)\<close>. v1.2 and v1.3 end the fetch branch with \<open>played = 0;\<close> and
  begin the final branch with \<open>newPage = 0;\<close>; v1.1 has neither statement.
\<close>

definition TIMER4_OVF_vect :: "version \<Rightarrow> dvr \<Rightarrow> dvr" where
  "TIMER4_OVF_vect v s0 =
     (let s = s0\<lparr>data_amount := data_amount s0 - 1\<rparr> in
      if data_amount s > 0 then
        (if played s \<noteq> 0 then
           (let (a, s1) = buffer_dequeue v s;
                s2 = s1\<lparr>first_que := a\<rparr>;
                (b, s3) = buffer_dequeue v s2;
                s4 = s3\<lparr>second_que := b\<rparr>;
                s5 = s4\<lparr>first_played := 0\<rparr>;
                s6 = s5\<lparr>second_played := 0\<rparr>
            in (case v of V1_1 \<Rightarrow> s6 | _ \<Rightarrow> s6\<lparr>played := 0\<rparr>))
         else if first_played s = 0 then
           (emit (first_que s) s)\<lparr>first_played := 1\<rparr>
         else if second_played s = 0 then
           (emit (midpoint (first_que s) (second_que s)) s)\<lparr>second_played := 1\<rparr>
         else
           (emit (second_que s) s)\<lparr>played := 1\<rparr>)
      else
        (case v of
           V1_1 \<Rightarrow> stop_pwm (s\<lparr>stop := 1\<rparr>)
         | _ \<Rightarrow> stop_pwm (s\<lparr>newPage := 0, stop := 1\<rparr>)))"

subsection \<open>The supervisory loop\<close>

text \<open>\<open>#define BIT_IS_SET(byte, bit) (byte & (1 << bit))\<close>, used as a condition.\<close>

definition BIT_IS_SET :: "u8 \<Rightarrow> nat \<Rightarrow> bool" where
  "BIT_IS_SET byte b = (byte AND push_bit b 1 \<noteq> 0)"

text \<open>
  What one pass through the loop body reads from outside: \<open>PINF\<close> is volatile and the
  \<open>DVR_STOPPED\<close> case reads it twice (the other cases once, \<open>PINF_first\<close>);
  \<open>wave_open_result\<close> is what \<open>wave_open()\<close> returns if it is called. \<open>wave.h\<close> is not
  part of the repository; the result is taken at the width of \<open>data_amount\<close>, which
  it is assigned to.
\<close>

record input =
  PINF_first :: u8
  PINF_second :: u8
  wave_open_result :: u32

definition PORTD_or :: "u8 \<Rightarrow> dvr \<Rightarrow> dvr" where
  "PORTD_or m s = s\<lparr>PORTD := PORTD s OR m\<rparr>"

definition PORTD_and :: "u8 \<Rightarrow> dvr \<Rightarrow> dvr" where
  "PORTD_and m s = s\<lparr>PORTD := PORTD s AND m\<rparr>"

definition dvr_record :: "version \<Rightarrow> dvr \<Rightarrow> dvr" where
  "dvr_record v s =
     (let s1 = buffer_reset s;
          s2 = s1\<lparr>pageCount := 305\<rparr>;
          s3 = s2\<lparr>newPage := 0\<rparr>;
          s4 = call Wave_create s3;
          s5 = call Adc_start s4;
          s6 = PORTD_or (push_bit PD1 1) s5
      in (case v of
            V1_1 \<Rightarrow> PORTD_and (NOT (push_bit PD2 1 OR push_bit PD3 1 OR push_bit PD4 1)) s6
          | _ \<Rightarrow> PORTD_and 0x0F s6))"

text \<open>The body of the first \<open>if\<close> of \<open>case DVR_STOPPED\<close>.\<close>

definition record_branch :: "version \<Rightarrow> dvr \<Rightarrow> dvr" where
  "record_branch v s =
     (let s1 = (case v of
                  V1_1 \<Rightarrow> PORTD_and 0x2F (PORTD_or 0x20 s)
                | _ \<Rightarrow> PORTD_or 0x80 s);
          s2 = call (Printf ''Recording started...'') s1;
          s3 = dvr_record v s2
      in s3\<lparr>state := DVR_RECORDING\<rparr>)"

text \<open>
  The body of the second \<open>if\<close> of \<open>case DVR_STOPPED\<close>. v1.1 assigns
  \<open>data_amount = wave_open ();\<close>, v1.2 and v1.3 \<open>data_amount = wave_open ()*2+1;\<close>.
\<close>

definition play_branch :: "version \<Rightarrow> u32 \<Rightarrow> dvr \<Rightarrow> dvr" where
  "play_branch v w s =
     (let s1 = (case v of
                  V1_1 \<Rightarrow> PORTD_and 0x4F (PORTD_or 0x40 s)
                | _ \<Rightarrow> PORTD_or 0x40 (PORTD_and 0x0F s));
          s2 = call (Printf (''Preparing file'' @ [CHR 0x0A])) s1;
          s3 = buffer_reset s2;
          s4 = s3\<lparr>newPage := 0\<rparr>;
          s5 = (call Wave_open s4)\<lparr>data_amount := (case v of V1_1 \<Rightarrow> w | _ \<Rightarrow> w * 2 + 1)\<rparr>;
          s6 = call (Wave_read 512) (call Buffer_writePage s5);
          s7 = call (Wave_read 512) (call Buffer_writePage s6);
          s8 = start_pwm s7
      in s8\<lparr>state := DVR_PLAYING\<rparr>)"

definition case_STOPPED :: "version \<Rightarrow> input \<Rightarrow> dvr \<Rightarrow> dvr" where
  "case_STOPPED v i s =
     (let s1 = (if BIT_IS_SET (NOT (PINF_first i)) PF5 then record_branch v s else s)
      in if BIT_IS_SET (NOT (PINF_second i)) PF4
         then play_branch v (wave_open_result i) s1 else s1)"

definition case_RECORDING :: "version \<Rightarrow> input \<Rightarrow> dvr \<Rightarrow> dvr" where
  "case_RECORDING v i s =
     (let s0 = (case v of V1_3 \<Rightarrow> PORTD_or 0x80 s | _ \<Rightarrow> s);
          s1 = (if BIT_IS_SET (NOT (PINF_first i)) PF6
                then (case v of
                        V1_1 \<Rightarrow> PORTD_and 0x1F (PORTD_or 0x10 s0)
                      | _ \<Rightarrow> PORTD_or 0x10 (PORTD_and 0x0F s0))\<lparr>pageCount := 1\<rparr>
                else s0)
      in if newPage s1 \<noteq> 0 then
           call (Wave_write 512) (call Buffer_readPage (s1\<lparr>newPage := 0\<rparr>))
         else if stop s1 \<noteq> 0 then
           (let s2 = call (Wave_write 512) (call Buffer_readPage (s1\<lparr>stop := 0\<rparr>));
                s3 = call Wave_close s2;
                s4 = call (Printf (''Recording COMPLETE!'' @ [CHR 0x0A])) s3;
                s5 = (case v of V1_3 \<Rightarrow> call (Debunce PF5) s4 | _ \<Rightarrow> s4)
            in s5\<lparr>state := DVR_STOPPED\<rparr>)
         else s1)"

definition case_PLAYING :: "version \<Rightarrow> input \<Rightarrow> dvr \<Rightarrow> dvr" where
  "case_PLAYING v i s =
     (let s0 = s\<lparr>PORTB := PORTB s OR 0x40\<rparr>;
          s1 = (if BIT_IS_SET (NOT (PINF_first i)) PF6
                then (case v of
                        V1_1 \<Rightarrow> stop_pwm ((PORTD_and 0x1F (PORTD_or 0x10 s0))\<lparr>stop := 1\<rparr>)
                      | _ \<Rightarrow> stop_pwm ((PORTD_or 0x10 (PORTD_and 0x0F s0))\<lparr>stop := 1, newPage := 0\<rparr>))
                else s0)
      in if newPage s1 \<noteq> 0 then
           call (Wave_read 512) (call Buffer_writePage (s1\<lparr>newPage := 0\<rparr>))
         else if stop s1 \<noteq> 0 then
           (let s2 = call Wave_close (s1\<lparr>stop := 0\<rparr>);
                s3 = call (Printf ''DONE!'') s2;
                s4 = (case v of V1_3 \<Rightarrow> call (Debunce PF4) s3 | _ \<Rightarrow> s3)
            in s4\<lparr>state := DVR_STOPPED\<rparr>)
         else s1)"

definition case_default :: "dvr \<Rightarrow> dvr" where
  "case_default s =
     (call (Printf (''ERROR: State machine in main entered invalid state!'' @ [CHR 0x0A])) s)
       \<lparr>state := DVR_STOPPED\<rparr>"

text \<open>One pass through the body of \<open>for(;;)\<close>: the \<open>switch (state)\<close>.\<close>

definition main_loop :: "version \<Rightarrow> input \<Rightarrow> dvr \<Rightarrow> dvr" where
  "main_loop v i s =
     (if state s = DVR_STOPPED then case_STOPPED v i s
      else if state s = DVR_RECORDING then case_RECORDING v i s
      else if state s = DVR_PLAYING then case_PLAYING v i s
      else case_default s)"

text \<open>
  The state when the loop is entered: the initialisers of the globals
  (\<open>played = 0\<close> in v1.1, \<open>played = 1\<close> in v1.2 and v1.3), the registers as
  \<open>set_pwm\<close>, the LED statements of \<open>main\<close> and \<open>stop_pwm\<close> leave them from their reset
  value 0, and the byte sequence \<open>f\<close> the buffer will hand out.
\<close>

definition init_state :: "version \<Rightarrow> (nat \<Rightarrow> u8) \<Rightarrow> dvr" where
  "init_state v f =
     \<lparr>state = DVR_STOPPED, pageCount = 0, newPage = 0, stop = 0, data_amount = 0,
      played = (case v of V1_1 \<Rightarrow> 0 | _ \<Rightarrow> 1),
      first_que = 0, second_que = 0, first_played = 0, second_played = 0,
      OCR4B = 0x80, TIMSK4 = 0x00, TCCR4A = 0x20, PORTB = 0x00,
      PORTD = (case v of V1_1 \<Rightarrow> 0x10 | _ \<Rightarrow> 0x00),
      buf_stream = f, buf_pos = 0, emitted = [], calls = []\<rparr>"

text \<open>\<open>n\<close> consecutive firings of the timer interrupt.\<close>

definition ticks :: "version \<Rightarrow> nat \<Rightarrow> dvr \<Rightarrow> dvr" where
  "ticks v n = (TIMER4_OVF_vect v ^^ n)"

text \<open>
  What a fetch tick leaves in \<open>newPage\<close>: \<open>pageEmpty\<close> sets it when one of the two bytes
  taken was the last of its page and the decremented counter is above the limit.
\<close>

definition fetch_newPage :: "version \<Rightarrow> dvr \<Rightarrow> u16" where
  "fetch_newPage v s =
     (if (Suc (buf_pos s) mod pageSize = 0 \<or> Suc (Suc (buf_pos s)) mod pageSize = 0)
         \<and> pageEmpty_limit v < data_amount s - 1
      then 1 else newPage s)"

subsection \<open>The up-sampled sequence of the specification\<close>

text \<open>
  The spec's words for the output (section 4.3): for every two stored samples, "emit A,
  then emit the arithmetic mean of A and B (rounded), then emit B". A last sample
  without a partner is emitted alone. The handler is compared with this function.
\<close>

fun interpolated :: "u8 list \<Rightarrow> u8 list" where
  "interpolated (a # b # r) = a # midpoint a b # b # interpolated r"
| "interpolated [a] = [a]"
| "interpolated [] = []"

subsection \<open>Reachable states\<close>

text \<open>
  The states the program can be in, with one pass of the loop body, one firing of the
  timer interrupt and one buffer callback as the atomic steps. The timer interrupt fires
  only while its enable bit (\<open>TOIE4\<close>, \<open>0x04\<close> of \<open>TIMSK4\<close>) is set; the callbacks may
  come at any time; the inputs of a pass are arbitrary.
\<close>

inductive_set reach :: "version \<Rightarrow> dvr set" for v :: version where
  start: "init_state v f \<in> reach v"
| pass: "s \<in> reach v \<Longrightarrow> main_loop v i s \<in> reach v"
| tick: "s \<in> reach v \<Longrightarrow> TIMSK4 s AND 0x04 \<noteq> 0 \<Longrightarrow> TIMER4_OVF_vect v s \<in> reach v"
| full: "s \<in> reach v \<Longrightarrow> pageFull s \<in> reach v"
| empty: "s \<in> reach v \<Longrightarrow> pageEmpty v s \<in> reach v"

subsection \<open>Inputs used in the examples\<close>

text \<open>The byte sequence 10, 20, 30, ... (modulo 256).\<close>

definition ramp :: "nat \<Rightarrow> u8" where
  "ramp k = of_nat (10 + 10 * k)"

text \<open>A pass during which \<open>PINF\<close> reads \<open>p\<close> and \<open>wave_open()\<close> would return \<open>w\<close>.\<close>

definition pressing :: "u8 \<Rightarrow> u32 \<Rightarrow> input" where
  "pressing p w = \<lparr>PINF_first = p, PINF_second = p, wave_open_result = w\<rparr>"

subsection \<open>The counter invariant\<close>

text \<open>Whenever the timer interrupt is enabled, the remaining-sample counter is not zero.\<close>

definition counter_ok :: "dvr \<Rightarrow> bool" where
  "counter_ok s \<longleftrightarrow> (TIMSK4 s = 0 \<or> data_amount s \<noteq> 0)"

subsection \<open>What a run of ticks writes\<close>



section \<open>Properties\<close>

subsection \<open>The midpoint\<close>

lemma midpoint_div: "midpoint a b = word_of_nat ((unat a + unat b) div 2)"
proof -
  have "0 \<le> uint a + uint b" by simp
  then have "0 \<le> real_of_int (uint a + uint b)" by (rule of_int_nonneg)
  then have "0 \<le> real_of_int (uint a + uint b) / 2" by (rule divide_nonneg_nonneg) simp
  then have "\<not> real_of_int (uint a + uint b) / 2 < 0" by (simp only: not_less)
  moreover have "\<lfloor>real_of_int (uint a + uint b) / 2\<rfloor> = (uint a + uint b) div 2"
    by (metis floor_divide_of_int_eq of_int_numeral)
  moreover have "(uint a + uint b) div 2 = int ((unat a + unat b) div 2)"
    by (simp add: zdiv_int)
  ultimately show ?thesis
    by (simp add: midpoint_def double_to_u8_def)
qed

lemma unat_midpoint: "unat (midpoint a b) = (unat a + unat b) div 2"
proof -
  have "unat a < 2 ^ 8" "unat b < 2 ^ 8"
    using unsigned_less[of a, where 'a = nat] unsigned_less[of b, where 'a = nat] by simp_all
  then have "(unat a + unat b) div 2 < 2 ^ 8" by simp
  then show ?thesis
    by (simp add: midpoint_div unat_of_nat)
qed

subsection \<open>Page-full notifications\<close>

lemma pageCount_pageFull: "pageCount (pageFull s) = pageCount s - 1"
  by (simp add: pageFull_def Let_def call_def)

lemma pageFull_one:
  "pageCount s = 1 \<Longrightarrow> pageFull s = (call Adc_stop (s\<lparr>pageCount := 0\<rparr>))\<lparr>stop := 1\<rparr>"
  by (simp add: pageFull_def Let_def)

lemma pageFull_not_one:
  "pageCount s \<noteq> 1 \<Longrightarrow> pageFull s = s\<lparr>pageCount := pageCount s - 1, newPage := 1\<rparr>"
  by (simp add: pageFull_def Let_def)

lemma pageFull_iter_count: "pageCount ((pageFull ^^ n) s) = pageCount s - of_nat n"
  by (induction n) (simp_all add: pageCount_pageFull algebra_simps)

lemma sub_of_nat_eq_0:
  "k \<le> unat (c::'a::len word) \<Longrightarrow> c - of_nat k = 0 \<longleftrightarrow> k = unat c"
proof -
  assume k: "k \<le> unat c"
  have "unat c < 2 ^ LENGTH('a)" by (rule unsigned_less)
  with k have "k < 2 ^ LENGTH('a)" by (rule le_less_trans)
  then have "unat (of_nat k :: 'a word) = k" by (simp add: unat_of_nat)
  then show ?thesis
    by (metis eq_iff_diff_eq_0 word_unat_eq_iff)
qed

text \<open>Before the counter runs out, every notification takes the page-ready branch.\<close>

lemma pageFull_iter_before:
  "k < unat (pageCount s) \<Longrightarrow>
     stop ((pageFull ^^ k) s) = stop s \<and> calls ((pageFull ^^ k) s) = calls s
     \<and> (0 < k \<longrightarrow> newPage ((pageFull ^^ k) s) = 1)"
proof (induction k)
  case 0
  then show ?case by simp
next
  case (Suc k)
  let ?t = "(pageFull ^^ k) s"
  from Suc.prems have "Suc k \<le> unat (pageCount s)" "Suc k \<noteq> unat (pageCount s)" by simp_all
  then have "pageCount s - of_nat (Suc k) \<noteq> 0"
    using sub_of_nat_eq_0 by blast
  then have "pageCount ?t \<noteq> 1"
    by (simp add: pageFull_iter_count algebra_simps)
  then have "pageFull ?t = ?t\<lparr>pageCount := pageCount ?t - 1, newPage := 1\<rparr>"
    by (rule pageFull_not_one)
  with Suc show ?case by simp
qed

text \<open>The notification that brings the counter to zero takes the completion branch.\<close>

lemma pageFull_iter_last:
  assumes "0 < unat (pageCount s)"
  shows "stop ((pageFull ^^ unat (pageCount s)) s) = 1
     \<and> calls ((pageFull ^^ unat (pageCount s)) s) = calls s @ [Adc_stop]"
proof -
  from assms obtain k where k: "unat (pageCount s) = Suc k" by (cases "unat (pageCount s)") auto
  let ?t = "(pageFull ^^ k) s"
  have "pageCount (pageFull ?t) = 0"
    using pageFull_iter_count[of "Suc k" s] sub_of_nat_eq_0[of "Suc k" "pageCount s"] k by simp
  then have "pageCount ?t = 1" by (simp add: pageCount_pageFull)
  then have "pageFull ?t = (call Adc_stop (?t\<lparr>pageCount := 0\<rparr>))\<lparr>stop := 1\<rparr>"
    by (rule pageFull_one)
  moreover have "calls ?t = calls s" using pageFull_iter_before[of k s] k by simp
  ultimately show ?thesis using k by (simp add: call_def)
qed

text \<open>
  The counter after \<open>n\<close> notifications is zero exactly when \<open>n\<close> is the starting value
  modulo \<open>2^16\<close>, and that notification, and no other, takes the completion branch.
\<close>

lemma sub_of_nat_eq_0_mod:
  "(c::u16) - of_nat n = 0 \<longleftrightarrow> n mod 65536 = unat c"
proof -
  have "c - of_nat n = 0 \<longleftrightarrow> of_nat n = c" by auto
  also have "\<dots> \<longleftrightarrow> unat (of_nat n :: u16) = unat c" by (simp add: word_unat_eq_iff)
  also have "\<dots> \<longleftrightarrow> n mod 65536 = unat c" by (simp add: unat_of_nat)
  finally show ?thesis .
qed

lemma pageFull_iter_zero:
  "pageCount ((pageFull ^^ n) s) = 0 \<longleftrightarrow> n mod 65536 = unat (pageCount s)"
  by (simp only: pageFull_iter_count sub_of_nat_eq_0_mod)

lemma pageFull_iter_step:
  "(Suc k mod 65536 = unat (pageCount s) \<longrightarrow>
      stop ((pageFull ^^ Suc k) s) = 1
      \<and> newPage ((pageFull ^^ Suc k) s) = newPage ((pageFull ^^ k) s)
      \<and> calls ((pageFull ^^ Suc k) s) = calls ((pageFull ^^ k) s) @ [Adc_stop])
   \<and> (Suc k mod 65536 \<noteq> unat (pageCount s) \<longrightarrow>
      newPage ((pageFull ^^ Suc k) s) = 1
      \<and> stop ((pageFull ^^ Suc k) s) = stop ((pageFull ^^ k) s)
      \<and> calls ((pageFull ^^ Suc k) s) = calls ((pageFull ^^ k) s))"
proof -
  define t where "t = (pageFull ^^ k) s"
  have e: "(pageFull ^^ Suc k) s = pageFull t"
    by (simp only: funpow.simps o_apply t_def)
  have z: "pageCount (pageFull t) = 0 \<longleftrightarrow> Suc k mod 65536 = unat (pageCount s)"
    using pageFull_iter_zero[of "Suc k" s] by (simp only: e)
  have o: "pageCount t = 1 \<longleftrightarrow> pageCount (pageFull t) = 0"
    by (simp add: pageCount_pageFull)
  show ?thesis
  proof (cases "pageCount t = 1")
    case True
    then have m: "Suc k mod 65536 = unat (pageCount s)" using o z by blast
    have "stop (pageFull t) = 1 \<and> newPage (pageFull t) = newPage t
      \<and> calls (pageFull t) = calls t @ [Adc_stop]"
      by (simp add: pageFull_one[OF True] call_def)
    with m show ?thesis unfolding e t_def[symmetric] by blast
  next
    case False
    then have m: "Suc k mod 65536 \<noteq> unat (pageCount s)" using o z by blast
    have "newPage (pageFull t) = 1 \<and> stop (pageFull t) = stop t
      \<and> calls (pageFull t) = calls t"
      by (simp add: pageFull_not_one[OF False])
    with m show ?thesis unfolding e t_def[symmetric] by blast
  qed
qed

text \<open>
  Claim C3 as stated fails for a sequence that goes on after the counter has run out.
  From a counter of 1 the first notification brings it to zero; the 16-bit counter then
  wraps, and notification 65537 brings it to zero again, calls \<open>adc_stop()\<close> again and
  sets \<open>stop\<close> again. And a sequence that ends early never reaches zero: from a counter
  of 3 the counter is not zero after two notifications.
\<close>

theorem pageFull_zero_again_after_wrap:
  "pageCount ((pageFull ^^ 1) ((init_state V1_3 ramp)\<lparr>pageCount := 1\<rparr>)) = 0
   \<and> pageCount ((pageFull ^^ Suc 65536) ((init_state V1_3 ramp)\<lparr>pageCount := 1\<rparr>)) = 0
   \<and> stop ((pageFull ^^ Suc 65536) ((init_state V1_3 ramp)\<lparr>pageCount := 1\<rparr>)) = 1
   \<and> calls ((pageFull ^^ Suc 65536) ((init_state V1_3 ramp)\<lparr>pageCount := 1\<rparr>)) =
       calls ((pageFull ^^ 65536) ((init_state V1_3 ramp)\<lparr>pageCount := 1\<rparr>)) @ [Adc_stop]
   \<and> pageCount ((pageFull ^^ 2) ((init_state V1_3 ramp)\<lparr>pageCount := 3\<rparr>)) \<noteq> 0"
proof -
  let ?s = "(init_state V1_3 ramp)\<lparr>pageCount := 1\<rparr>"
  let ?r = "(init_state V1_3 ramp)\<lparr>pageCount := 3\<rparr>"
  have c: "unat (pageCount ?s) = 1" "unat (pageCount ?r) = 3" by simp_all
  have "1 mod 65536 = unat (pageCount ?s)" using c by simp
  then have a: "pageCount ((pageFull ^^ 1) ?s) = 0"
    by (simp only: pageFull_iter_zero)
  have m: "Suc 65536 mod 65536 = unat (pageCount ?s)" using c by simp
  then have b: "pageCount ((pageFull ^^ Suc 65536) ?s) = 0"
    by (simp only: pageFull_iter_zero)
  note st = pageFull_iter_step[of 65536 ?s, THEN conjunct1, THEN mp, OF m]
  have "2 mod 65536 \<noteq> unat (pageCount ?r)" using c by simp
  then have d: "pageCount ((pageFull ^^ 2) ?r) \<noteq> 0"
    by (simp only: pageFull_iter_zero not_False_eq_True)
  show ?thesis
    by (rule conjI[OF a conjI[OF b conjI[OF st[THEN conjunct1]
          conjI[OF st[THEN conjunct2, THEN conjunct2] d]]]])
qed

text \<open>
  Claim C3, amended. Every call of \<open>pageFull\<close> decrements \<open>pageCount\<close> by one (modulo
  \<open>2^16\<close>) and takes exactly one of two branches: when the decremented counter is zero
  (the counter was 1) it calls \<open>adc_stop()\<close> and sets \<open>stop\<close>, leaving \<open>newPage\<close> alone;
  otherwise it sets \<open>newPage\<close>, leaving \<open>stop\<close> alone and calling nothing. Over any
  sequence of notifications from a counter \<open>c\<close>, notification \<open>k\<close> brings the counter to
  zero exactly when \<open>k mod 65536 = c\<close>; that notification takes the completion branch
  and every other one the page-ready branch. So among the first \<open>c\<close> notifications from
  a positive counter the counter is zero after the last one only; before it \<open>stop\<close> is
  as it was, \<open>adc_stop()\<close> has not been called and \<open>newPage\<close> is set; at it \<open>stop\<close> is
  set and \<open>adc_stop()\<close> has been called once.
\<close>

theorem pageFull_notifications:
  "pageCount (pageFull s) = pageCount s - 1
   \<and> (pageCount s = 1 \<longrightarrow>
        stop (pageFull s) = 1 \<and> newPage (pageFull s) = newPage s
        \<and> calls (pageFull s) = calls s @ [Adc_stop])
   \<and> (pageCount s \<noteq> 1 \<longrightarrow>
        newPage (pageFull s) = 1 \<and> stop (pageFull s) = stop s
        \<and> calls (pageFull s) = calls s)
   \<and> (\<forall>k. (pageCount ((pageFull ^^ Suc k) s) = 0 \<longleftrightarrow> Suc k mod 65536 = unat (pageCount s))
        \<and> (Suc k mod 65536 = unat (pageCount s) \<longrightarrow>
             stop ((pageFull ^^ Suc k) s) = 1
             \<and> newPage ((pageFull ^^ Suc k) s) = newPage ((pageFull ^^ k) s)
             \<and> calls ((pageFull ^^ Suc k) s) = calls ((pageFull ^^ k) s) @ [Adc_stop])
        \<and> (Suc k mod 65536 \<noteq> unat (pageCount s) \<longrightarrow>
             newPage ((pageFull ^^ Suc k) s) = 1
             \<and> stop ((pageFull ^^ Suc k) s) = stop ((pageFull ^^ k) s)
             \<and> calls ((pageFull ^^ Suc k) s) = calls ((pageFull ^^ k) s)))
   \<and> (\<forall>k. 0 < k \<and> k \<le> unat (pageCount s) \<longrightarrow>
        (pageCount ((pageFull ^^ k) s) = 0 \<longleftrightarrow> k = unat (pageCount s))
        \<and> (k < unat (pageCount s) \<longrightarrow>
             newPage ((pageFull ^^ k) s) = 1 \<and> stop ((pageFull ^^ k) s) = stop s
             \<and> calls ((pageFull ^^ k) s) = calls s)
        \<and> (k = unat (pageCount s) \<longrightarrow>
             stop ((pageFull ^^ k) s) = 1
             \<and> calls ((pageFull ^^ k) s) = calls s @ [Adc_stop]))"
proof -
  have p1: "pageCount (pageFull s) = pageCount s - 1" by (rule pageCount_pageFull)
  have p2: "pageCount s = 1 \<longrightarrow>
        stop (pageFull s) = 1 \<and> newPage (pageFull s) = newPage s
        \<and> calls (pageFull s) = calls s @ [Adc_stop]"
  proof
    assume "pageCount s = 1"
    then have e: "pageFull s = (call Adc_stop (s\<lparr>pageCount := 0\<rparr>))\<lparr>stop := 1\<rparr>"
      by (rule pageFull_one)
    show "stop (pageFull s) = 1 \<and> newPage (pageFull s) = newPage s
        \<and> calls (pageFull s) = calls s @ [Adc_stop]" by (simp add: e call_def)
  qed
  have p3: "pageCount s \<noteq> 1 \<longrightarrow>
        newPage (pageFull s) = 1 \<and> stop (pageFull s) = stop s
        \<and> calls (pageFull s) = calls s"
  proof
    assume "pageCount s \<noteq> 1"
    then have e: "pageFull s = s\<lparr>pageCount := pageCount s - 1, newPage := 1\<rparr>"
      by (rule pageFull_not_one)
    show "newPage (pageFull s) = 1 \<and> stop (pageFull s) = stop s
        \<and> calls (pageFull s) = calls s" by (simp add: e)
  qed
  have p4: "\<forall>k. (pageCount ((pageFull ^^ Suc k) s) = 0 \<longleftrightarrow> Suc k mod 65536 = unat (pageCount s))
        \<and> (Suc k mod 65536 = unat (pageCount s) \<longrightarrow>
             stop ((pageFull ^^ Suc k) s) = 1
             \<and> newPage ((pageFull ^^ Suc k) s) = newPage ((pageFull ^^ k) s)
             \<and> calls ((pageFull ^^ Suc k) s) = calls ((pageFull ^^ k) s) @ [Adc_stop])
        \<and> (Suc k mod 65536 \<noteq> unat (pageCount s) \<longrightarrow>
             newPage ((pageFull ^^ Suc k) s) = 1
             \<and> stop ((pageFull ^^ Suc k) s) = stop ((pageFull ^^ k) s)
             \<and> calls ((pageFull ^^ Suc k) s) = calls ((pageFull ^^ k) s))"
    using pageFull_iter_zero[of _ s] pageFull_iter_step[of _ s] by blast
  have p5: "\<forall>k. 0 < k \<and> k \<le> unat (pageCount s) \<longrightarrow>
        (pageCount ((pageFull ^^ k) s) = 0 \<longleftrightarrow> k = unat (pageCount s))
        \<and> (k < unat (pageCount s) \<longrightarrow>
             newPage ((pageFull ^^ k) s) = 1 \<and> stop ((pageFull ^^ k) s) = stop s
             \<and> calls ((pageFull ^^ k) s) = calls s)
        \<and> (k = unat (pageCount s) \<longrightarrow>
             stop ((pageFull ^^ k) s) = 1
             \<and> calls ((pageFull ^^ k) s) = calls s @ [Adc_stop])"
  proof (intro allI impI conjI)
    fix k assume k: "0 < k \<and> k \<le> unat (pageCount s)"
    then show "pageCount ((pageFull ^^ k) s) = 0 \<longleftrightarrow> k = unat (pageCount s)"
      using sub_of_nat_eq_0[of k "pageCount s"] by (simp only: pageFull_iter_count)
    {
      assume "k < unat (pageCount s)"
      with k pageFull_iter_before[of k s]
      show "newPage ((pageFull ^^ k) s) = 1" "stop ((pageFull ^^ k) s) = stop s"
        "calls ((pageFull ^^ k) s) = calls s" by simp_all
    }
    {
      assume "k = unat (pageCount s)"
      with k pageFull_iter_last[of s]
      show "stop ((pageFull ^^ k) s) = 1" "calls ((pageFull ^^ k) s) = calls s @ [Adc_stop]"
        by simp_all
    }
  qed
  from p1 p2 p3 p4 p5 show ?thesis by (intro conjI)
qed

text \<open>
  At a counter of 3: zero, \<open>stop\<close> and \<open>adc_stop()\<close> after the third notification; after
  the second the counter is not zero, \<open>newPage\<close> is set and \<open>stop\<close> is not; zero and
  \<open>adc_stop()\<close> again at notification 65539.
\<close>

theorem pageFull_notifications_witness:
  "pageCount ((pageFull ^^ 3) ((init_state V1_3 ramp)\<lparr>pageCount := 3\<rparr>)) = 0
   \<and> stop ((pageFull ^^ 3) ((init_state V1_3 ramp)\<lparr>pageCount := 3\<rparr>)) = 1
   \<and> calls ((pageFull ^^ 3) ((init_state V1_3 ramp)\<lparr>pageCount := 3\<rparr>)) = [Adc_stop]
   \<and> pageCount ((pageFull ^^ 2) ((init_state V1_3 ramp)\<lparr>pageCount := 3\<rparr>)) \<noteq> 0
   \<and> newPage ((pageFull ^^ 2) ((init_state V1_3 ramp)\<lparr>pageCount := 3\<rparr>)) = 1
   \<and> stop ((pageFull ^^ 2) ((init_state V1_3 ramp)\<lparr>pageCount := 3\<rparr>)) = 0
   \<and> pageCount ((pageFull ^^ Suc 65538) ((init_state V1_3 ramp)\<lparr>pageCount := 3\<rparr>)) = 0
   \<and> calls ((pageFull ^^ Suc 65538) ((init_state V1_3 ramp)\<lparr>pageCount := 3\<rparr>)) =
       calls ((pageFull ^^ 65538) ((init_state V1_3 ramp)\<lparr>pageCount := 3\<rparr>)) @ [Adc_stop]"
proof -
  let ?s = "(init_state V1_3 ramp)\<lparr>pageCount := 3\<rparr>"
  have c: "unat (pageCount ?s) = 3" "stop ?s = 0" "calls ?s = []"
    by (simp_all add: init_state_def)
  note t = pageFull_notifications[of ?s]
  note u = t[THEN conjunct2, THEN conjunct2, THEN conjunct2, THEN conjunct1, rule_format]
  note b = t[THEN conjunct2, THEN conjunct2, THEN conjunct2, THEN conjunct2, rule_format]
  have k3: "0 < (3::nat) \<and> 3 \<le> unat (pageCount ?s)" "(3::nat) = unat (pageCount ?s)"
    using c by simp_all
  have k2: "0 < (2::nat) \<and> 2 \<le> unat (pageCount ?s)" "(2::nat) < unat (pageCount ?s)"
    using c by simp_all
  have w: "Suc 65538 mod 65536 = unat (pageCount ?s)" using c by simp
  note r3 = b[OF k3(1)]
  note r2 = b[OF k2(1)]
  note rw = u[of 65538]
  have a1: "pageCount ((pageFull ^^ 3) ?s) = 0" using r3[THEN conjunct1] k3(2) by blast
  have a2: "stop ((pageFull ^^ 3) ?s) = 1" "calls ((pageFull ^^ 3) ?s) = calls ?s @ [Adc_stop]"
    using r3[THEN conjunct2, THEN conjunct2] k3(2) by blast+
  have a3: "pageCount ((pageFull ^^ 2) ?s) \<noteq> 0" using r2[THEN conjunct1] k2(2) by auto
  have a4: "newPage ((pageFull ^^ 2) ?s) = 1" "stop ((pageFull ^^ 2) ?s) = stop ?s"
    using r2[THEN conjunct2, THEN conjunct1] k2(2) by blast+
  have a5: "pageCount ((pageFull ^^ Suc 65538) ?s) = 0" using rw[THEN conjunct1] w by blast
  have a6: "calls ((pageFull ^^ Suc 65538) ?s) = calls ((pageFull ^^ 65538) ?s) @ [Adc_stop]"
    using rw[THEN conjunct2, THEN conjunct1] w by blast
  from a1 a2 a3 a4 a5 a6 c(2,3) show ?thesis by (simp only: append_Nil) blast
qed

text \<open>
  Claim C9. Called with \<open>pageCount = 0\<close>, \<open>pageFull\<close> leaves the counter at 65535 and
  sets \<open>newPage\<close>, changing nothing else. The completion branch (the only one that calls
  \<open>adc_stop()\<close>) is taken exactly when the counter was 1 before the decrement.
\<close>

theorem pageFull_wraps_at_zero:
  "(pageCount s = 0 \<longrightarrow> pageFull s = s\<lparr>pageCount := 65535, newPage := 1\<rparr>)
   \<and> (pageCount s \<noteq> 1 \<longrightarrow> pageFull s = s\<lparr>pageCount := pageCount s - 1, newPage := 1\<rparr>)
   \<and> (pageCount s = 1 \<longrightarrow>
        pageFull s = s\<lparr>pageCount := 0, stop := 1, calls := calls s @ [Adc_stop]\<rparr>)
   \<and> (calls (pageFull s) = calls s @ [Adc_stop] \<longleftrightarrow> pageCount s = 1)"
  by (simp add: pageFull_def Let_def call_def)

theorem pageFull_wraps_at_zero_witness:
  "pageCount (init_state V1_1 (\<lambda>k. 0)) = 0
   \<and> pageCount (pageFull (init_state V1_1 (\<lambda>k. 0))) = 65535
   \<and> newPage (pageFull (init_state V1_1 (\<lambda>k. 0))) = 1
   \<and> stop (pageFull (init_state V1_1 (\<lambda>k. 0))) = 0
   \<and> calls (pageFull (init_state V1_1 (\<lambda>k. 0))) = []
   \<and> pageCount (pageFull ((init_state V1_1 (\<lambda>k. 0))\<lparr>pageCount := 1\<rparr>)) = 0
   \<and> stop (pageFull ((init_state V1_1 (\<lambda>k. 0))\<lparr>pageCount := 1\<rparr>)) = 1
   \<and> calls (pageFull ((init_state V1_1 (\<lambda>k. 0))\<lparr>pageCount := 1\<rparr>)) = [Adc_stop]"
  using pageFull_wraps_at_zero[of "init_state V1_1 (\<lambda>k. 0)"]
    pageFull_wraps_at_zero[of "(init_state V1_1 (\<lambda>k. 0))\<lparr>pageCount := 1\<rparr>"]
  by (simp add: init_state_def)

subsection \<open>The value of the average branch\<close>

text \<open>
  Claim C6. For all 8-bit samples the value the handler writes in its average branch
  is the floor of the exact mean: as a number, \<open>(A + B) div 2\<close>, which is
  \<open>\<lfloor>(A + B) / 2\<rfloor>\<close> over the reals; and the average branch (counter not
  exhausted, a pair staged, first value played, second not) writes exactly that value
  to \<open>OCR4B\<close>, in every revision.
\<close>

theorem midpoint_floor_mean:
  "unat (midpoint a b) = (unat a + unat b) div 2
   \<and> int (unat (midpoint a b)) = \<lfloor>(real (unat a) + real (unat b)) / 2\<rfloor>
   \<and> (data_amount s \<noteq> 1 \<and> played s = 0 \<and> first_played s \<noteq> 0 \<and> second_played s = 0 \<longrightarrow>
        OCR4B (TIMER4_OVF_vect v s) = midpoint (first_que s) (second_que s)
        \<and> emitted (TIMER4_OVF_vect v s) = emitted s @ [midpoint (first_que s) (second_que s)])"
proof (intro conjI impI)
  show u: "unat (midpoint a b) = (unat a + unat b) div 2" by (rule unat_midpoint)
  have "\<lfloor>(real (unat a) + real (unat b)) / 2\<rfloor> = \<lfloor>real (unat a + unat b) / real 2\<rfloor>" by simp
  also have "\<dots> = int ((unat a + unat b) div 2)" by (simp only: floor_divide_of_nat_eq)
  finally show "int (unat (midpoint a b)) = \<lfloor>(real (unat a) + real (unat b)) / 2\<rfloor>"
    using u by simp
next
  assume a: "data_amount s \<noteq> 1 \<and> played s = 0 \<and> first_played s \<noteq> 0 \<and> second_played s = 0"
  then have "data_amount s - 1 \<noteq> 0" by simp
  with a show "OCR4B (TIMER4_OVF_vect v s) = midpoint (first_que s) (second_que s)"
    by (simp add: TIMER4_OVF_vect_def Let_def emit_def word_gt_0)
  from a \<open>data_amount s - 1 \<noteq> 0\<close>
  show "emitted (TIMER4_OVF_vect v s) = emitted s @ [midpoint (first_que s) (second_que s)]"
    by (simp add: TIMER4_OVF_vect_def Let_def emit_def word_gt_0)
qed

text \<open>The mean of 3 and 4 is 3, of 255 and 255 is 255; staged 200 and 101 give 150.\<close>

theorem midpoint_floor_mean_witness:
  "unat (midpoint 3 4) = 3 \<and> unat (midpoint 255 255) = 255
   \<and> OCR4B (TIMER4_OVF_vect V1_3
        ((init_state V1_3 (\<lambda>k. 0))
           \<lparr>data_amount := 9, played := 0, first_que := 200, second_que := 101,
            first_played := 1\<rparr>)) = 150"
proof -
  let ?s = "(init_state V1_3 (\<lambda>k. 0))
           \<lparr>data_amount := 9, played := 0, first_que := 200, second_que := 101,
            first_played := 1\<rparr>"
  have h: "data_amount ?s \<noteq> 1 \<and> played ?s = 0 \<and> first_played ?s \<noteq> 0 \<and> second_played ?s = 0"
    by (simp add: init_state_def)
  have m: "midpoint 200 101 = 150" by (simp add: midpoint_div)
  from midpoint_floor_mean[of 3 4 ?s V1_3] midpoint_floor_mean[of 255 255 ?s V1_3] h m
  show ?thesis by simp
qed

subsection \<open>Page-empty notifications\<close>

text \<open>
  Claim C4 as stated fails on \<open>src/main.c\<close> (v1.1): with 600 samples left, which is not
  more than four page-widths, its \<open>pageEmpty\<close> raises \<open>newPage\<close>.
\<close>

theorem pageEmpty_limit_not_always_2048:
  "newPage ((init_state V1_1 (\<lambda>k. 0))\<lparr>data_amount := 600\<rparr>) = 0
   \<and> newPage (pageEmpty V1_1 ((init_state V1_1 (\<lambda>k. 0))\<lparr>data_amount := 600\<rparr>)) = 1
   \<and> \<not> 4 * 512 < unat (data_amount ((init_state V1_1 (\<lambda>k. 0))\<lparr>data_amount := 600\<rparr>))"
  by (simp add: pageEmpty_def init_state_def)

lemma pageEmpty_limit_unat: "unat (pageEmpty_limit v) = (case v of V1_1 \<Rightarrow> 512 | _ \<Rightarrow> 4 * 512)"
  by (cases v) (simp_all add: pageSize_def)

text \<open>
  Claim C4, amended. \<open>pageEmpty\<close> sets \<open>newPage\<close> exactly when \<open>data_amount\<close> exceeds the
  revision's limit, four page-widths (2048) in v1.2 and v1.3 and one page-width (512)
  in v1.1, and changes nothing else.
\<close>

theorem pageEmpty_threshold:
  "pageEmpty v s =
     (if (case v of V1_1 \<Rightarrow> 512 | _ \<Rightarrow> 4 * 512) < unat (data_amount s)
      then s\<lparr>newPage := 1\<rparr> else s)"
  by (simp add: pageEmpty_def word_less_nat_alt pageEmpty_limit_unat)

subsection \<open>The Stopped case\<close>

lemmas branch_defs = play_branch_def record_branch_def dvr_record_def buffer_reset_def
  call_def PORTD_or_def PORTD_and_def start_pwm_def Let_def

lemma calls_record_branch:
  "calls (record_branch v s) =
     calls s @ [Printf ''Recording started...'', Buffer_reset, Wave_create, Adc_start]"
  by (cases v) (simp_all add: branch_defs)

lemma calls_play_branch:
  "calls (play_branch v w s) =
     calls s @ [Printf (''Preparing file'' @ [CHR 0x0A]), Buffer_reset, Wave_open,
                Buffer_writePage, Wave_read 512, Buffer_writePage, Wave_read 512]"
  by (cases v) (simp_all add: branch_defs)

lemma fields_record_branch:
  "state (record_branch v s) = DVR_RECORDING" "pageCount (record_branch v s) = 305"
  "newPage (record_branch v s) = 0" "buf_pos (record_branch v s) = 0"
  by (cases v; simp add: branch_defs)+

lemma fields_play_branch:
  "state (play_branch v w s) = DVR_PLAYING" "pageCount (play_branch v w s) = pageCount s"
  "newPage (play_branch v w s) = 0" "buf_pos (play_branch v w s) = 0"
  "TIMSK4 (play_branch v w s) = 0x04" "TCCR4A (play_branch v w s) = 0x21"
  "data_amount (play_branch v w s) = (case v of V1_1 \<Rightarrow> w | _ \<Rightarrow> w * 2 + 1)"
  by (cases v; simp add: branch_defs)+

lemma cursor_record_branch:
  "played (record_branch v s) = played s" "first_que (record_branch v s) = first_que s"
  "second_que (record_branch v s) = second_que s"
  "first_played (record_branch v s) = first_played s"
  "second_played (record_branch v s) = second_played s"
  "emitted (record_branch v s) = emitted s" "buf_stream (record_branch v s) = buf_stream s"
  by (cases v; simp add: branch_defs)+

lemma cursor_play_branch:
  "played (play_branch v w s) = played s" "first_que (play_branch v w s) = first_que s"
  "second_que (play_branch v w s) = second_que s"
  "first_played (play_branch v w s) = first_played s"
  "second_played (play_branch v w s) = second_played s"
  "emitted (play_branch v w s) = emitted s" "buf_stream (play_branch v w s) = buf_stream s"
  "stop (play_branch v w s) = stop s"
  by (cases v; simp add: branch_defs)+

lemma cursor_case_STOPPED:
  "played (case_STOPPED v i s) = played s" "first_que (case_STOPPED v i s) = first_que s"
  "second_que (case_STOPPED v i s) = second_que s"
  "first_played (case_STOPPED v i s) = first_played s"
  "second_played (case_STOPPED v i s) = second_played s"
  "emitted (case_STOPPED v i s) = emitted s" "buf_stream (case_STOPPED v i s) = buf_stream s"
  by (simp_all add: case_STOPPED_def cursor_play_branch cursor_record_branch)

text \<open>
  Claim C8. One pass of the loop in \<open>DVR_STOPPED\<close> with the stop input asserted (bit
  \<open>PF6\<close> of \<open>PINF\<close> low) and the record and play inputs not asserted leaves the whole
  state as it was: the mode, \<open>newPage\<close>, \<open>stop\<close>, \<open>pageCount\<close>, \<open>data_amount\<close> and every
  other variable and register, and calls nothing.
\<close>

theorem stop_in_stopped_is_noop:
  "state s = DVR_STOPPED
   \<and> BIT_IS_SET (NOT (PINF_first i)) PF6 \<and> BIT_IS_SET (NOT (PINF_second i)) PF6
   \<and> \<not> BIT_IS_SET (NOT (PINF_first i)) PF5 \<and> \<not> BIT_IS_SET (NOT (PINF_second i)) PF4
   \<longrightarrow> main_loop v i s = s"
  by (simp add: main_loop_def case_STOPPED_def)

theorem stop_in_stopped_is_noop_witness:
  "state (init_state V1_3 (\<lambda>k. 0)) = DVR_STOPPED
   \<and> BIT_IS_SET (NOT 0xBF) PF6 \<and> \<not> BIT_IS_SET (NOT 0xBF) PF5 \<and> \<not> BIT_IS_SET (NOT 0xBF) PF4
   \<and> main_loop V1_3 \<lparr>PINF_first = 0xBF, PINF_second = 0xBF, wave_open_result = 1024\<rparr>
        (init_state V1_3 (\<lambda>k. 0)) = init_state V1_3 (\<lambda>k. 0)"
proof -
  have b: "BIT_IS_SET (NOT 0xBF) PF6" "\<not> BIT_IS_SET (NOT 0xBF) PF5" "\<not> BIT_IS_SET (NOT 0xBF) PF4"
    by (simp_all add: BIT_IS_SET_def PF6_def PF5_def PF4_def)
  have s: "state (init_state V1_3 (\<lambda>k. 0)) = DVR_STOPPED" by (simp add: init_state_def)
  from stop_in_stopped_is_noop[of "init_state V1_3 (\<lambda>k. 0)"
      "\<lparr>PINF_first = 0xBF, PINF_second = 0xBF, wave_open_result = 1024\<rparr>" V1_3] b s
  show ?thesis by simp
qed

text \<open>
  Claim C10. In \<open>DVR_STOPPED\<close> the two tests are two separate \<open>if\<close> statements: with
  the record input asserted at the first read of \<open>PINF\<close> and the play input at the
  second, the pass runs the record branch and then the play branch on its result. It
  ends in \<open>DVR_PLAYING\<close> with \<open>pageCount = 305\<close> and the timer interrupt enabled, having
  called, in this order, the buffer reset, file creation and sampling start of
  recording, then the buffer reset, file open and two page reads of playback.
\<close>

theorem record_and_play_both_run:
  "state s = DVR_STOPPED
   \<and> BIT_IS_SET (NOT (PINF_first i)) PF5 \<and> BIT_IS_SET (NOT (PINF_second i)) PF4
   \<longrightarrow> main_loop v i s = play_branch v (wave_open_result i) (record_branch v s)
       \<and> state (main_loop v i s) = DVR_PLAYING
       \<and> pageCount (main_loop v i s) = 305
       \<and> TIMSK4 (main_loop v i s) = 0x04
       \<and> calls (main_loop v i s) =
           calls s @ [Printf ''Recording started...'', Buffer_reset, Wave_create, Adc_start,
                      Printf (''Preparing file'' @ [CHR 0x0A]), Buffer_reset, Wave_open,
                      Buffer_writePage, Wave_read 512, Buffer_writePage, Wave_read 512]"
  by (simp add: main_loop_def case_STOPPED_def fields_play_branch fields_record_branch
      calls_play_branch calls_record_branch)

theorem record_and_play_both_run_witness:
  "state (init_state V1_1 (\<lambda>k. 0)) = DVR_STOPPED
   \<and> BIT_IS_SET (NOT 0xCF) PF5 \<and> BIT_IS_SET (NOT 0xCF) PF4
   \<and> state (main_loop V1_1 \<lparr>PINF_first = 0xCF, PINF_second = 0xCF, wave_open_result = 1024\<rparr>
        (init_state V1_1 (\<lambda>k. 0))) = DVR_PLAYING
   \<and> pageCount (main_loop V1_1 \<lparr>PINF_first = 0xCF, PINF_second = 0xCF, wave_open_result = 1024\<rparr>
        (init_state V1_1 (\<lambda>k. 0))) = 305
   \<and> calls (main_loop V1_1 \<lparr>PINF_first = 0xCF, PINF_second = 0xCF, wave_open_result = 1024\<rparr>
        (init_state V1_1 (\<lambda>k. 0))) =
        [Printf ''Recording started...'', Buffer_reset, Wave_create, Adc_start,
         Printf (''Preparing file'' @ [CHR 0x0A]), Buffer_reset, Wave_open,
         Buffer_writePage, Wave_read 512, Buffer_writePage, Wave_read 512]"
proof -
  let ?i = "\<lparr>PINF_first = 0xCF, PINF_second = 0xCF, wave_open_result = 1024\<rparr>"
  let ?s = "init_state V1_1 (\<lambda>k. 0)"
  have b: "BIT_IS_SET (NOT 0xCF) PF5" "BIT_IS_SET (NOT 0xCF) PF4"
    by (simp_all add: BIT_IS_SET_def PF5_def PF4_def)
  have s: "state ?s = DVR_STOPPED" "calls ?s = []"
    by (simp_all add: init_state_def)
  from b s have h: "state ?s = DVR_STOPPED
    \<and> BIT_IS_SET (NOT (PINF_first ?i)) PF5 \<and> BIT_IS_SET (NOT (PINF_second ?i)) PF4"
    by simp
  note r = record_and_play_both_run[of ?s ?i V1_1, THEN mp, OF h, THEN conjunct2]
  from r b s show ?thesis by simp
qed

subsection \<open>Single ticks of the timer interrupt\<close>

lemma tick_count: "data_amount (TIMER4_OVF_vect v s) = data_amount s - 1"
  by (cases v)
     (simp_all add: TIMER4_OVF_vect_def Let_def emit_def stop_pwm_def buffer_dequeue_def
        pageEmpty_def split: prod.splits)

lemma tick_done:
  "data_amount s = 1 \<Longrightarrow>
   TIMER4_OVF_vect v s =
     (case v of
        V1_1 \<Rightarrow> s\<lparr>data_amount := 0, stop := 1, TIMSK4 := 0x00, TCCR4A := 0x20\<rparr>
      | _ \<Rightarrow> s\<lparr>data_amount := 0, newPage := 0, stop := 1, TIMSK4 := 0x00, TCCR4A := 0x20\<rparr>)"
  by (cases v) (simp_all add: TIMER4_OVF_vect_def Let_def stop_pwm_def)

lemma tick_fetch:
  "v \<noteq> V1_1 \<Longrightarrow> data_amount s \<noteq> 1 \<Longrightarrow> played s \<noteq> 0 \<Longrightarrow>
   TIMER4_OVF_vect v s =
     s\<lparr>data_amount := data_amount s - 1, buf_pos := Suc (Suc (buf_pos s)),
       first_que := buf_stream s (buf_pos s), second_que := buf_stream s (Suc (buf_pos s)),
       first_played := 0, second_played := 0, played := 0, newPage := fetch_newPage v s\<rparr>"
  by (cases v)
     (simp_all add: TIMER4_OVF_vect_def Let_def buffer_dequeue_def pageEmpty_def
        fetch_newPage_def word_gt_0)

text \<open>v1.1 has no \<open>played = 0;\<close>: a fetch tick leaves \<open>played\<close> set and writes nothing.\<close>

lemma tick_fetch_v11:
  "data_amount s \<noteq> 1 \<Longrightarrow> played s \<noteq> 0 \<Longrightarrow>
   played (TIMER4_OVF_vect V1_1 s) = played s \<and> emitted (TIMER4_OVF_vect V1_1 s) = emitted s"
  by (simp add: TIMER4_OVF_vect_def Let_def buffer_dequeue_def pageEmpty_def word_gt_0)

lemma tick_first:
  "data_amount s \<noteq> 1 \<Longrightarrow> played s = 0 \<Longrightarrow> first_played s = 0 \<Longrightarrow>
   TIMER4_OVF_vect v s =
     s\<lparr>data_amount := data_amount s - 1, OCR4B := first_que s,
       emitted := emitted s @ [first_que s], first_played := 1\<rparr>"
  by (simp add: TIMER4_OVF_vect_def Let_def emit_def word_gt_0)

lemma tick_average:
  "data_amount s \<noteq> 1 \<Longrightarrow> played s = 0 \<Longrightarrow> first_played s \<noteq> 0 \<Longrightarrow> second_played s = 0 \<Longrightarrow>
   TIMER4_OVF_vect v s =
     s\<lparr>data_amount := data_amount s - 1, OCR4B := midpoint (first_que s) (second_que s),
       emitted := emitted s @ [midpoint (first_que s) (second_que s)], second_played := 1\<rparr>"
  by (simp add: TIMER4_OVF_vect_def Let_def emit_def word_gt_0)

lemma tick_second:
  "data_amount s \<noteq> 1 \<Longrightarrow> played s = 0 \<Longrightarrow> first_played s \<noteq> 0 \<Longrightarrow> second_played s \<noteq> 0 \<Longrightarrow>
   TIMER4_OVF_vect v s =
     s\<lparr>data_amount := data_amount s - 1, OCR4B := second_que s,
       emitted := emitted s @ [second_que s], played := 1\<rparr>"
  by (simp add: TIMER4_OVF_vect_def Let_def emit_def word_gt_0)

lemma tick_running:
  "data_amount s \<noteq> 1 \<Longrightarrow>
   stop (TIMER4_OVF_vect v s) = stop s \<and> TIMSK4 (TIMER4_OVF_vect v s) = TIMSK4 s"
  by (cases v)
     (simp_all add: TIMER4_OVF_vect_def Let_def emit_def buffer_dequeue_def pageEmpty_def
        word_gt_0)

lemma counter_above:
  "4 < unat (d::u32) \<Longrightarrow> d \<noteq> 1 \<and> d - 1 \<noteq> 1 \<and> d - 1 - 1 \<noteq> 1 \<and> d - 1 - 1 - 1 \<noteq> 1"
  by unat_arith

subsection \<open>Runs of ticks\<close>

lemma ticks_Suc: "ticks v (Suc n) s = TIMER4_OVF_vect v (ticks v n s)"
  by (simp add: ticks_def)


text \<open>
  One cursor cycle of v1.2 and v1.3, tick by tick, from the fetch phase and with more
  than four ticks left on the counter.
\<close>

lemma cycle_ticks:
  assumes v: "v \<noteq> V1_1" and p: "played s \<noteq> 0" and d: "4 < unat (data_amount s)"
  defines "a \<equiv> buf_stream s (buf_pos s)" and "b \<equiv> buf_stream s (Suc (buf_pos s))"
  defines "s1 \<equiv> s\<lparr>data_amount := data_amount s - 1, buf_pos := Suc (Suc (buf_pos s)),
       first_que := a, second_que := b,
       first_played := 0, second_played := 0, played := 0, newPage := fetch_newPage v s\<rparr>"
  shows "ticks v 1 s = s1"
    and "ticks v 2 s = s1\<lparr>data_amount := data_amount s - 2, OCR4B := a,
           emitted := emitted s @ [a], first_played := 1\<rparr>"
    and "ticks v 3 s = s1\<lparr>data_amount := data_amount s - 3, OCR4B := midpoint a b,
           emitted := emitted s @ [a, midpoint a b], first_played := 1, second_played := 1\<rparr>"
    and "ticks v 4 s = s1\<lparr>data_amount := data_amount s - 4, OCR4B := b,
           emitted := emitted s @ [a, midpoint a b, b], first_played := 1, second_played := 1,
           played := 1\<rparr>"
proof -
  note c = counter_above[OF d]
  show t1: "ticks v 1 s = s1"
    using tick_fetch[OF v _ p] c by (simp add: ticks_def s1_def a_def b_def)
  have "ticks v 2 s = TIMER4_OVF_vect v s1"
    using t1 ticks_Suc[of v 1 s] by (simp add: numeral_2_eq_2)
  also have "\<dots> = s1\<lparr>data_amount := data_amount s1 - 1, OCR4B := first_que s1,
       emitted := emitted s1 @ [first_que s1], first_played := 1\<rparr>"
    using c by (intro tick_first) (simp_all add: s1_def)
  finally show t2: "ticks v 2 s = s1\<lparr>data_amount := data_amount s - 2, OCR4B := a,
           emitted := emitted s @ [a], first_played := 1\<rparr>"
    by (simp add: s1_def)
  define s2 where "s2 = ticks v 2 s"
  have "ticks v 3 s = TIMER4_OVF_vect v s2"
    using ticks_Suc[of v 2 s] by (simp add: numeral_3_eq_3 numeral_2_eq_2 s2_def)
  also have "\<dots> = s2\<lparr>data_amount := data_amount s2 - 1,
       OCR4B := midpoint (first_que s2) (second_que s2),
       emitted := emitted s2 @ [midpoint (first_que s2) (second_que s2)], second_played := 1\<rparr>"
    using c by (intro tick_average) (simp_all add: s2_def t2 s1_def)
  finally show t3: "ticks v 3 s = s1\<lparr>data_amount := data_amount s - 3, OCR4B := midpoint a b,
           emitted := emitted s @ [a, midpoint a b], first_played := 1, second_played := 1\<rparr>"
    by (simp add: s2_def t2 s1_def)
  define s3 where "s3 = ticks v 3 s"
  have "ticks v 4 s = TIMER4_OVF_vect v s3"
    using ticks_Suc[of v 3 s] by (simp add: eval_nat_numeral s3_def)
  also have "\<dots> = s3\<lparr>data_amount := data_amount s3 - 1, OCR4B := second_que s3,
       emitted := emitted s3 @ [second_que s3], played := 1\<rparr>"
    using c by (intro tick_second) (simp_all add: s3_def t3 s1_def)
  finally show "ticks v 4 s = s1\<lparr>data_amount := data_amount s - 4, OCR4B := b,
           emitted := emitted s @ [a, midpoint a b, b], first_played := 1, second_played := 1,
           played := 1\<rparr>"
    by (simp add: s3_def t3 s1_def)
qed



lemma length_interpolated: "length (interpolated xs) = 3 * length xs div 2"
  by (induction xs rule: interpolated.induct) simp_all




subsection \<open>The cursor cycle\<close>

lemma ramp_vals: "ramp 0 = 10" "ramp (Suc 0) = 20" "ramp 1 = 20" "ramp 2 = 30" "ramp 3 = 40"
  by (simp_all add: ramp_def)

lemma start_ramp:
  "played (play_branch V1_3 w (init_state V1_3 ramp)) = 1"
  "emitted (play_branch V1_3 w (init_state V1_3 ramp)) = []"
  "buf_stream (play_branch V1_3 w (init_state V1_3 ramp)) = ramp"
  "buf_pos (play_branch V1_3 w (init_state V1_3 ramp)) = 0"
  "stop (play_branch V1_3 w (init_state V1_3 ramp)) = 0"
  "data_amount (play_branch V1_3 w (init_state V1_3 ramp)) = w * 2 + 1"
  by (simp_all add: cursor_play_branch fields_play_branch init_state_def)

text \<open>
  Claim C1 as stated fails. In v1.3, on a file of 50 samples beginning 10, 20, three
  ticks after playback starts the handler has written two values, 10 and 15, and the
  cursor cycle is not complete (\<open>played\<close> is still 0); the third value, 20, is written
  by the fourth tick.
\<close>

theorem cycle_not_three_ticks:
  "emitted (ticks V1_3 3 (play_branch V1_3 50 (init_state V1_3 ramp))) = [10, 15]
   \<and> played (ticks V1_3 3 (play_branch V1_3 50 (init_state V1_3 ramp))) = 0
   \<and> emitted (ticks V1_3 4 (play_branch V1_3 50 (init_state V1_3 ramp))) = [10, 15, 20]
   \<and> played (ticks V1_3 4 (play_branch V1_3 50 (init_state V1_3 ramp))) = 1"
proof -
  let ?s = "play_branch V1_3 50 (init_state V1_3 ramp)"
  have v: "V1_3 \<noteq> V1_1" by simp
  have p: "played ?s \<noteq> 0" by (simp add: start_ramp)
  have d: "4 < unat (data_amount ?s)" by (simp add: start_ramp)
  have m: "midpoint 10 20 = 15" by (simp add: midpoint_div)
  show ?thesis
    by (simp add: cycle_ticks(3)[OF v p d] cycle_ticks(4)[OF v p d] start_ramp ramp_vals m)
qed

text \<open>
  Claim C1, amended. In v1.2 and v1.3, for every pair the handler fetches (cursor in the
  fetch phase, more than four ticks left on the counter) one full cursor cycle takes
  exactly four interrupt ticks: the first dequeues the pair A, B and writes nothing to
  \<open>OCR4B\<close>; the second writes A, the third the midpoint of A and B, the fourth B, and
  only the fourth puts the cursor back into the fetch phase. Three values are written
  for two samples taken, over four ticks.
\<close>

theorem cycle_is_four_ticks:
  "v \<noteq> V1_1 \<and> played s \<noteq> 0 \<and> 4 < unat (data_amount s) \<longrightarrow>
     emitted (ticks v 1 s) = emitted s
     \<and> first_que (ticks v 1 s) = buf_stream s (buf_pos s)
     \<and> second_que (ticks v 1 s) = buf_stream s (Suc (buf_pos s))
     \<and> buf_pos (ticks v 1 s) = buf_pos s + 2
     \<and> played (ticks v 1 s) = 0
     \<and> emitted (ticks v 2 s) = emitted s @ [buf_stream s (buf_pos s)]
     \<and> played (ticks v 2 s) = 0
     \<and> emitted (ticks v 3 s) =
         emitted s @ [buf_stream s (buf_pos s),
                      midpoint (buf_stream s (buf_pos s)) (buf_stream s (Suc (buf_pos s)))]
     \<and> played (ticks v 3 s) = 0
     \<and> emitted (ticks v 4 s) =
         emitted s @ [buf_stream s (buf_pos s),
                      midpoint (buf_stream s (buf_pos s)) (buf_stream s (Suc (buf_pos s))),
                      buf_stream s (Suc (buf_pos s))]
     \<and> played (ticks v 4 s) = 1
     \<and> buf_pos (ticks v 4 s) = buf_pos s + 2
     \<and> data_amount (ticks v 4 s) = data_amount s - 4"
proof
  assume a: "v \<noteq> V1_1 \<and> played s \<noteq> 0 \<and> 4 < unat (data_amount s)"
  then have v: "v \<noteq> V1_1" and p: "played s \<noteq> 0" and d: "4 < unat (data_amount s)"
    by simp_all
  note c = cycle_ticks[OF v p d]
  show "emitted (ticks v 1 s) = emitted s
     \<and> first_que (ticks v 1 s) = buf_stream s (buf_pos s)
     \<and> second_que (ticks v 1 s) = buf_stream s (Suc (buf_pos s))
     \<and> buf_pos (ticks v 1 s) = buf_pos s + 2
     \<and> played (ticks v 1 s) = 0
     \<and> emitted (ticks v 2 s) = emitted s @ [buf_stream s (buf_pos s)]
     \<and> played (ticks v 2 s) = 0
     \<and> emitted (ticks v 3 s) =
         emitted s @ [buf_stream s (buf_pos s),
                      midpoint (buf_stream s (buf_pos s)) (buf_stream s (Suc (buf_pos s)))]
     \<and> played (ticks v 3 s) = 0
     \<and> emitted (ticks v 4 s) =
         emitted s @ [buf_stream s (buf_pos s),
                      midpoint (buf_stream s (buf_pos s)) (buf_stream s (Suc (buf_pos s))),
                      buf_stream s (Suc (buf_pos s))]
     \<and> played (ticks v 4 s) = 1
     \<and> buf_pos (ticks v 4 s) = buf_pos s + 2
     \<and> data_amount (ticks v 4 s) = data_amount s - 4"
    by (simp add: c c(1)[unfolded One_nat_def])
qed

theorem cycle_is_four_ticks_witness:
  "played (play_branch V1_3 50 (init_state V1_3 ramp)) \<noteq> 0
   \<and> 4 < unat (data_amount (play_branch V1_3 50 (init_state V1_3 ramp)))
   \<and> emitted (ticks V1_3 1 (play_branch V1_3 50 (init_state V1_3 ramp))) = []
   \<and> emitted (ticks V1_3 2 (play_branch V1_3 50 (init_state V1_3 ramp))) = [10]
   \<and> emitted (ticks V1_3 4 (play_branch V1_3 50 (init_state V1_3 ramp))) = [10, 15, 20]
   \<and> data_amount (ticks V1_3 4 (play_branch V1_3 50 (init_state V1_3 ramp))) = 97"
proof -
  let ?s = "play_branch V1_3 50 (init_state V1_3 ramp)"
  have h: "V1_3 \<noteq> V1_1 \<and> played ?s \<noteq> 0 \<and> 4 < unat (data_amount ?s)"
    by (simp add: start_ramp)
  have m: "midpoint 10 20 = 15" by (simp add: midpoint_div)
  from cycle_is_four_ticks[of V1_3 ?s, THEN mp, OF h] h m show ?thesis
    by (simp add: start_ramp ramp_vals)
qed

subsection \<open>Starting playback\<close>

lemma pressing_play:
  "BIT_IS_SET (NOT (PINF_first (pressing 0xEF w))) PF5 = False"
  "BIT_IS_SET (NOT (PINF_second (pressing 0xEF w))) PF4 = True"
  "BIT_IS_SET (NOT (PINF_first (pressing 0xEF w))) PF6 = False"
  by (simp_all add: BIT_IS_SET_def PF6_def PF5_def PF4_def pressing_def)

lemma pressing_stop:
  "BIT_IS_SET (NOT (PINF_first (pressing 0xBF w))) PF5 = False"
  "BIT_IS_SET (NOT (PINF_second (pressing 0xBF w))) PF4 = False"
  "BIT_IS_SET (NOT (PINF_first (pressing 0xBF w))) PF6 = True"
  by (simp_all add: BIT_IS_SET_def PF6_def PF5_def PF4_def pressing_def)

lemma wave_open_result_pressing: "wave_open_result (pressing p w) = w"
  by (simp add: pressing_def)

lemma main_loop_play:
  "state s = DVR_STOPPED \<Longrightarrow> main_loop v (pressing 0xEF w) s = play_branch v w s"
  by (simp add: main_loop_def case_STOPPED_def pressing_play wave_open_result_pressing)

lemma main_loop_stop_playing:
  "state s = DVR_PLAYING \<Longrightarrow> v \<noteq> V1_1 \<Longrightarrow>
   main_loop v (pressing 0xBF w) s =
     (let s1 = s\<lparr>PORTB := PORTB s OR 0x40\<rparr>;
          s2 = PORTD_or 0x10 (PORTD_and 0x0F s1);
          s3 = stop_pwm (s2\<lparr>stop := 1, newPage := 0\<rparr>);
          s4 = call (Printf ''DONE!'') (call Wave_close (s3\<lparr>stop := 0\<rparr>));
          s5 = (case v of V1_3 \<Rightarrow> call (Debunce PF4) s4 | _ \<Rightarrow> s4)
      in s5\<lparr>state := DVR_STOPPED\<rparr>)"
  by (cases v)
     (simp_all add: main_loop_def case_PLAYING_def pressing_stop
        DVR_STOPPED_def DVR_PLAYING_def DVR_RECORDING_def Let_def stop_pwm_def
        PORTD_or_def PORTD_and_def call_def)

text \<open>
  Claim C7 as stated fails. In v1.3: start playback of a file beginning 10, 20; after
  two ticks (the fetch, then the value 10) press stop, which returns the machine to
  \<open>DVR_STOPPED\<close>; press play again. The cursor is still in the middle of the old pair
  (\<open>played = 0\<close>), and the first tick of the new session takes nothing from the buffer:
  it writes 15, the midpoint of the pair staged in the previous session.
\<close>

theorem cursor_not_reset_on_play:
  "state (main_loop V1_3 (pressing 0xBF 4)
           (ticks V1_3 2 (main_loop V1_3 (pressing 0xEF 4) (init_state V1_3 ramp)))) = DVR_STOPPED
   \<and> state (main_loop V1_3 (pressing 0xEF 4) (main_loop V1_3 (pressing 0xBF 4)
           (ticks V1_3 2 (main_loop V1_3 (pressing 0xEF 4) (init_state V1_3 ramp))))) = DVR_PLAYING
   \<and> played (main_loop V1_3 (pressing 0xEF 4) (main_loop V1_3 (pressing 0xBF 4)
           (ticks V1_3 2 (main_loop V1_3 (pressing 0xEF 4) (init_state V1_3 ramp))))) = 0
   \<and> buf_pos (main_loop V1_3 (pressing 0xEF 4) (main_loop V1_3 (pressing 0xBF 4)
           (ticks V1_3 2 (main_loop V1_3 (pressing 0xEF 4) (init_state V1_3 ramp))))) = 0
   \<and> emitted (main_loop V1_3 (pressing 0xEF 4) (main_loop V1_3 (pressing 0xBF 4)
           (ticks V1_3 2 (main_loop V1_3 (pressing 0xEF 4) (init_state V1_3 ramp))))) = [10]
   \<and> buf_pos (TIMER4_OVF_vect V1_3 (main_loop V1_3 (pressing 0xEF 4) (main_loop V1_3 (pressing 0xBF 4)
           (ticks V1_3 2 (main_loop V1_3 (pressing 0xEF 4) (init_state V1_3 ramp)))))) = 0
   \<and> emitted (TIMER4_OVF_vect V1_3 (main_loop V1_3 (pressing 0xEF 4) (main_loop V1_3 (pressing 0xBF 4)
           (ticks V1_3 2 (main_loop V1_3 (pressing 0xEF 4) (init_state V1_3 ramp)))))) = [10, 15]"
proof -
  define s1 where "s1 = main_loop V1_3 (pressing 0xEF 4) (init_state V1_3 ramp)"
  define s2 where "s2 = ticks V1_3 2 s1"
  define s3 where "s3 = main_loop V1_3 (pressing 0xBF 4) s2"
  define s4 where "s4 = main_loop V1_3 (pressing 0xEF 4) s3"
  have e1: "s1 = play_branch V1_3 4 (init_state V1_3 ramp)"
    unfolding s1_def by (rule main_loop_play) (simp add: init_state_def)
  have v: "V1_3 \<noteq> V1_1" by simp
  have p: "played s1 \<noteq> 0" by (simp add: e1 start_ramp)
  have d: "4 < unat (data_amount s1)" by (simp add: e1 start_ramp)
  note e2 = cycle_ticks(2)[OF v p d, folded s2_def]
  have f2: "state s2 = DVR_PLAYING" "played s2 = 0" "first_played s2 = 1" "second_played s2 = 0"
    "first_que s2 = 10" "second_que s2 = 20" "emitted s2 = [10]"
    by (simp_all add: e2 e1 fields_play_branch cursor_play_branch init_state_def ramp_def)
  have e3: "s3 = (let s1 = s2\<lparr>PORTB := PORTB s2 OR 0x40\<rparr>;
          s2 = PORTD_or 0x10 (PORTD_and 0x0F s1);
          s3 = stop_pwm (s2\<lparr>stop := 1, newPage := 0\<rparr>);
          s4 = call (Printf ''DONE!'') (call Wave_close (s3\<lparr>stop := 0\<rparr>));
          s5 = (case V1_3 of V1_3 \<Rightarrow> call (Debunce PF4) s4 | _ \<Rightarrow> s4)
      in s5\<lparr>state := DVR_STOPPED\<rparr>)"
    unfolding s3_def by (rule main_loop_stop_playing[OF f2(1) v])
  have f3: "state s3 = DVR_STOPPED" "played s3 = 0" "first_played s3 = 1" "second_played s3 = 0"
    "first_que s3 = 10" "second_que s3 = 20" "emitted s3 = [10]"
    by (simp_all add: e3 f2 Let_def stop_pwm_def PORTD_or_def PORTD_and_def call_def)
  have e4: "s4 = play_branch V1_3 4 s3"
    unfolding s4_def by (rule main_loop_play[OF f3(1)])
  have f4: "state s4 = DVR_PLAYING" "played s4 = 0" "first_played s4 = 1" "second_played s4 = 0"
    "first_que s4 = 10" "second_que s4 = 20" "emitted s4 = [10]" "buf_pos s4 = 0"
    "data_amount s4 \<noteq> 1"
    by (simp_all add: e4 f3 fields_play_branch cursor_play_branch)
  have m: "midpoint 10 20 = 15" by (simp add: midpoint_div)
  have e5: "TIMER4_OVF_vect V1_3 s4 = s4\<lparr>data_amount := data_amount s4 - 1,
       OCR4B := midpoint (first_que s4) (second_que s4),
       emitted := emitted s4 @ [midpoint (first_que s4) (second_que s4)], second_played := 1\<rparr>"
    by (rule tick_average) (simp_all add: f4)
  show ?thesis
    unfolding s1_def[symmetric] s2_def[symmetric] s3_def[symmetric] s4_def[symmetric]
    by (simp add: f3 f4 e5 m)
qed

lemma tick_fetch_fields:
  "data_amount s \<noteq> 1 \<Longrightarrow> played s \<noteq> 0 \<Longrightarrow>
   buf_pos (TIMER4_OVF_vect v s) = buf_pos s + 2
   \<and> first_que (TIMER4_OVF_vect v s) = buf_stream s (buf_pos s)
   \<and> second_que (TIMER4_OVF_vect v s) = buf_stream s (Suc (buf_pos s))
   \<and> emitted (TIMER4_OVF_vect v s) = emitted s
   \<and> OCR4B (TIMER4_OVF_vect v s) = OCR4B s"
  by (cases v)
     (simp_all add: TIMER4_OVF_vect_def Let_def buffer_dequeue_def pageEmpty_def word_gt_0)

lemma tick_emit_fields:
  "data_amount s \<noteq> 1 \<Longrightarrow> played s = 0 \<Longrightarrow>
   buf_pos (TIMER4_OVF_vect v s) = buf_pos s
   \<and> emitted (TIMER4_OVF_vect v s) =
       emitted s @ [if first_played s = 0 then first_que s
                    else if second_played s = 0 then midpoint (first_que s) (second_que s)
                    else second_que s]"
  by (simp add: TIMER4_OVF_vect_def Let_def emit_def word_gt_0)

lemma cursor_main_loop_STOPPED:
  "state s = DVR_STOPPED \<Longrightarrow>
   played (main_loop v i s) = played s \<and> first_que (main_loop v i s) = first_que s
   \<and> second_que (main_loop v i s) = second_que s
   \<and> first_played (main_loop v i s) = first_played s
   \<and> second_played (main_loop v i s) = second_played s
   \<and> emitted (main_loop v i s) = emitted s \<and> buf_stream (main_loop v i s) = buf_stream s"
  by (simp add: main_loop_def cursor_case_STOPPED)

lemma play_main_loop_STOPPED:
  "state s = DVR_STOPPED \<Longrightarrow> BIT_IS_SET (NOT (PINF_second i)) PF4 \<Longrightarrow>
   state (main_loop v i s) = DVR_PLAYING \<and> buf_pos (main_loop v i s) = 0
   \<and> TIMSK4 (main_loop v i s) = 0x04"
  by (simp add: main_loop_def case_STOPPED_def fields_play_branch)

lemma counter_main_loop_STOPPED:
  "state s = DVR_STOPPED \<Longrightarrow> BIT_IS_SET (NOT (PINF_second i)) PF4 \<Longrightarrow>
   data_amount (main_loop v i s) =
     (case v of V1_1 \<Rightarrow> wave_open_result i | _ \<Rightarrow> wave_open_result i * 2 + 1)"
  by (simp add: main_loop_def case_STOPPED_def fields_play_branch)

lemma tick_done_fields:
  "data_amount s = 1 \<Longrightarrow>
   buf_pos (TIMER4_OVF_vect v s) = buf_pos s \<and> emitted (TIMER4_OVF_vect v s) = emitted s
   \<and> OCR4B (TIMER4_OVF_vect v s) = OCR4B s
   \<and> stop (TIMER4_OVF_vect v s) = 1 \<and> TIMSK4 (TIMER4_OVF_vect v s) = 0"
  by (cases v) (simp_all add: tick_done)

text \<open>
  Claim C7, amended. Starting playback does not reset the cursor: a pass of the loop in
  \<open>DVR_STOPPED\<close> leaves \<open>played\<close>, \<open>first_que\<close>, \<open>second_que\<close>, \<open>first_played\<close> and
  \<open>second_played\<close> as they were. A pass that starts playback (play input asserted at
  the second read of \<open>PINF\<close>) ends in \<open>DVR_PLAYING\<close> with the interrupt enabled and
  \<open>data_amount\<close> set to \<open>wave_open()\<close> in v1.1 and \<open>wave_open()*2+1\<close> in v1.2 and v1.3.
  If that value is 1 (an empty file in v1.2 and v1.3) the first tick takes nothing from
  the buffer and writes nothing: it raises \<open>stop\<close> and disables the interrupt.
  Otherwise the first tick dequeues a fresh pair if \<open>played\<close> was non-zero before the
  pass (as it is at power-up in v1.2 and v1.3, which initialise \<open>played = 1\<close>); and if
  \<open>played\<close> was zero it takes nothing from the buffer and writes the value the pair
  staged by the previous session has due: \<open>first_que\<close>, the midpoint or \<open>second_que\<close>,
  as \<open>first_played\<close> and \<open>second_played\<close> say.
\<close>

theorem playback_start_keeps_cursor:
  "state s = DVR_STOPPED \<longrightarrow>
     played (main_loop v i s) = played s
     \<and> first_que (main_loop v i s) = first_que s
     \<and> second_que (main_loop v i s) = second_que s
     \<and> first_played (main_loop v i s) = first_played s
     \<and> second_played (main_loop v i s) = second_played s
     \<and> (BIT_IS_SET (NOT (PINF_second i)) PF4 \<longrightarrow>
          state (main_loop v i s) = DVR_PLAYING
          \<and> TIMSK4 (main_loop v i s) = 0x04
          \<and> data_amount (main_loop v i s) =
              (case v of V1_1 \<Rightarrow> wave_open_result i | _ \<Rightarrow> wave_open_result i * 2 + 1)
          \<and> (data_amount (main_loop v i s) = 1 \<longrightarrow>
               buf_pos (TIMER4_OVF_vect v (main_loop v i s)) = 0
               \<and> emitted (TIMER4_OVF_vect v (main_loop v i s)) = emitted s
               \<and> stop (TIMER4_OVF_vect v (main_loop v i s)) = 1
               \<and> TIMSK4 (TIMER4_OVF_vect v (main_loop v i s)) = 0)
          \<and> (data_amount (main_loop v i s) \<noteq> 1 \<and> played s \<noteq> 0 \<longrightarrow>
               buf_pos (TIMER4_OVF_vect v (main_loop v i s)) = 2
               \<and> first_que (TIMER4_OVF_vect v (main_loop v i s)) = buf_stream s 0
               \<and> second_que (TIMER4_OVF_vect v (main_loop v i s)) = buf_stream s 1
               \<and> emitted (TIMER4_OVF_vect v (main_loop v i s)) = emitted s)
          \<and> (data_amount (main_loop v i s) \<noteq> 1 \<and> played s = 0 \<longrightarrow>
               buf_pos (TIMER4_OVF_vect v (main_loop v i s)) = 0
               \<and> emitted (TIMER4_OVF_vect v (main_loop v i s)) =
                   emitted s @ [if first_played s = 0 then first_que s
                                else if second_played s = 0
                                  then midpoint (first_que s) (second_que s)
                                else second_que s]))"
proof (intro impI conjI; (elim conjE)?)
  assume st: "state s = DVR_STOPPED"
  note c = cursor_main_loop_STOPPED[OF st, of v i]
  show "played (main_loop v i s) = played s" "first_que (main_loop v i s) = first_que s"
    "second_que (main_loop v i s) = second_que s"
    "first_played (main_loop v i s) = first_played s"
    "second_played (main_loop v i s) = second_played s"
    using c by simp_all
  assume b: "BIT_IS_SET (NOT (PINF_second i)) PF4"
  note q = play_main_loop_STOPPED[OF st b, of v]
  show "state (main_loop v i s) = DVR_PLAYING" "TIMSK4 (main_loop v i s) = 0x04"
    using q by simp_all
  show "data_amount (main_loop v i s) =
      (case v of V1_1 \<Rightarrow> wave_open_result i | _ \<Rightarrow> wave_open_result i * 2 + 1)"
    by (rule counter_main_loop_STOPPED[OF st b])
  {
    assume d: "data_amount (main_loop v i s) = 1"
    note f = tick_done_fields[OF d, of v]
    show "buf_pos (TIMER4_OVF_vect v (main_loop v i s)) = 0" using f q by simp
    show "emitted (TIMER4_OVF_vect v (main_loop v i s)) = emitted s" using f c by simp
    show "stop (TIMER4_OVF_vect v (main_loop v i s)) = 1" using f by simp
    show "TIMSK4 (TIMER4_OVF_vect v (main_loop v i s)) = 0" using f by simp
  }
  {
    assume d: "data_amount (main_loop v i s) \<noteq> 1" and "played s \<noteq> 0"
    then have "played (main_loop v i s) \<noteq> 0" using c by simp
    note f = tick_fetch_fields[OF d this, of v]
    show "buf_pos (TIMER4_OVF_vect v (main_loop v i s)) = 2" using f q by simp
    show "first_que (TIMER4_OVF_vect v (main_loop v i s)) = buf_stream s 0"
      using f q c by simp
    show "second_que (TIMER4_OVF_vect v (main_loop v i s)) = buf_stream s 1"
      using f q c by simp
    show "emitted (TIMER4_OVF_vect v (main_loop v i s)) = emitted s" using f c by simp
  }
  {
    assume d: "data_amount (main_loop v i s) \<noteq> 1" and "played s = 0"
    then have "played (main_loop v i s) = 0" using c by simp
    note f = tick_emit_fields[OF d this, of v]
    show "buf_pos (TIMER4_OVF_vect v (main_loop v i s)) = 0" using f q by simp
    show "emitted (TIMER4_OVF_vect v (main_loop v i s)) =
                   emitted s @ [if first_played s = 0 then first_que s
                                else if second_played s = 0
                                  then midpoint (first_que s) (second_que s)
                                else second_que s]"
      using f c by simp
  }
qed

text \<open>
  From power-up in v1.3: on a file of four samples beginning 10, 20 the first tick
  fetches that pair and writes nothing; on an empty file the counter is 1 and the first
  tick only raises \<open>stop\<close>.
\<close>

theorem playback_start_keeps_cursor_witness:
  "state (init_state V1_3 ramp) = DVR_STOPPED
   \<and> BIT_IS_SET (NOT (PINF_second (pressing 0xEF 4))) PF4
   \<and> data_amount (main_loop V1_3 (pressing 0xEF 4) (init_state V1_3 ramp)) = 9
   \<and> played (init_state V1_3 ramp) = 1
   \<and> played (main_loop V1_3 (pressing 0xEF 4) (init_state V1_3 ramp)) = 1
   \<and> buf_pos (TIMER4_OVF_vect V1_3 (main_loop V1_3 (pressing 0xEF 4) (init_state V1_3 ramp))) = 2
   \<and> first_que (TIMER4_OVF_vect V1_3 (main_loop V1_3 (pressing 0xEF 4) (init_state V1_3 ramp))) = 10
   \<and> second_que (TIMER4_OVF_vect V1_3 (main_loop V1_3 (pressing 0xEF 4) (init_state V1_3 ramp))) = 20
   \<and> emitted (TIMER4_OVF_vect V1_3 (main_loop V1_3 (pressing 0xEF 4) (init_state V1_3 ramp))) = []
   \<and> BIT_IS_SET (NOT (PINF_second (pressing 0xEF 0))) PF4
   \<and> data_amount (main_loop V1_3 (pressing 0xEF 0) (init_state V1_3 ramp)) = 1
   \<and> buf_pos (TIMER4_OVF_vect V1_3 (main_loop V1_3 (pressing 0xEF 0) (init_state V1_3 ramp))) = 0
   \<and> emitted (TIMER4_OVF_vect V1_3 (main_loop V1_3 (pressing 0xEF 0) (init_state V1_3 ramp))) = []
   \<and> stop (TIMER4_OVF_vect V1_3 (main_loop V1_3 (pressing 0xEF 0) (init_state V1_3 ramp))) = 1"
proof -
  let ?s = "init_state V1_3 ramp"
  let ?i = "pressing 0xEF 4"
  let ?j = "pressing 0xEF 0"
  have st: "state ?s = DVR_STOPPED" by (simp add: init_state_def)
  have b: "BIT_IS_SET (NOT (PINF_second ?i)) PF4" "BIT_IS_SET (NOT (PINF_second ?j)) PF4"
    by (simp_all add: pressing_play)
  have p: "played ?s = 1" "played ?s \<noteq> 0" "emitted ?s = []" "buf_stream ?s = ramp"
    by (simp_all add: init_state_def)
  note r = playback_start_keeps_cursor[of ?s V1_3 ?i, THEN mp, OF st]
  note r1 = r[THEN conjunct1]
  note ri = r[THEN conjunct2, THEN conjunct2, THEN conjunct2, THEN conjunct2, THEN conjunct2,
      THEN mp, OF b(1), THEN conjunct2, THEN conjunct2]
  have d: "data_amount (main_loop V1_3 ?i ?s) = 9"
    using ri[THEN conjunct1] by (simp add: wave_open_result_pressing)
  then have h: "data_amount (main_loop V1_3 ?i ?s) \<noteq> 1 \<and> played ?s \<noteq> 0" using p by simp
  note r6 = ri[THEN conjunct2, THEN conjunct2, THEN conjunct1, THEN mp, OF h]
  note t = playback_start_keeps_cursor[of ?s V1_3 ?j, THEN mp, OF st]
  note tj = t[THEN conjunct2, THEN conjunct2, THEN conjunct2, THEN conjunct2, THEN conjunct2,
      THEN mp, OF b(2), THEN conjunct2, THEN conjunct2]
  have e: "data_amount (main_loop V1_3 ?j ?s) = 1"
    using tj[THEN conjunct1] by (simp add: wave_open_result_pressing)
  note t6 = tj[THEN conjunct2, THEN conjunct1, THEN mp, OF e]
  from st b d e p r1 r6 t6 show ?thesis by (simp add: ramp_vals)
qed

subsection \<open>A playback session\<close>






























subsection \<open>The remaining-sample counter\<close>

text \<open>\<open>wave_open ()*2+1\<close> is odd, so it is never zero, whatever \<open>wave_open\<close> returns.\<close>

lemma odd_counter: "(w::u32) * 2 + 1 \<noteq> 0"
proof
  assume "w * 2 + 1 = 0"
  then have "even (w * 2 + 1)" by simp
  then show False by simp
qed

lemma counter_ok_record_branch: "counter_ok (record_branch v s) = counter_ok s"
  by (cases v) (simp_all add: counter_ok_def branch_defs)

lemma counter_ok_play_branch: "v \<noteq> V1_1 \<Longrightarrow> counter_ok (play_branch v w s)"
  by (cases v) (simp_all add: counter_ok_def fields_play_branch odd_counter)

lemma counter_ok_case_STOPPED:
  "v \<noteq> V1_1 \<Longrightarrow> counter_ok s \<Longrightarrow> counter_ok (case_STOPPED v i s)"
  by (simp add: case_STOPPED_def counter_ok_record_branch counter_ok_play_branch)

lemma counter_ok_case_RECORDING: "counter_ok s \<Longrightarrow> counter_ok (case_RECORDING v i s)"
  by (cases v)
     (simp_all add: case_RECORDING_def counter_ok_def Let_def call_def PORTD_or_def PORTD_and_def)

lemma counter_ok_case_PLAYING: "counter_ok s \<Longrightarrow> counter_ok (case_PLAYING v i s)"
  by (cases v)
     (simp_all add: case_PLAYING_def counter_ok_def Let_def call_def PORTD_or_def PORTD_and_def
        stop_pwm_def)

lemma counter_ok_main_loop: "v \<noteq> V1_1 \<Longrightarrow> counter_ok s \<Longrightarrow> counter_ok (main_loop v i s)"
  by (simp add: main_loop_def counter_ok_case_STOPPED counter_ok_case_RECORDING
      counter_ok_case_PLAYING)
     (simp add: case_default_def counter_ok_def call_def)

lemma counter_ok_tick: "counter_ok s \<Longrightarrow> counter_ok (TIMER4_OVF_vect v s)"
proof (cases "data_amount s = 1")
  case True
  from tick_done[OF this, of v] show ?thesis by (cases v) (simp_all add: counter_ok_def)
next
  case False
  assume "counter_ok s"
  with False tick_running[OF False, of v] show ?thesis
    by (simp add: counter_ok_def tick_count)
qed

lemma counter_ok_callbacks: "counter_ok (pageFull s) = counter_ok s"
  "counter_ok (pageEmpty v s) = counter_ok s"
  by (simp_all add: counter_ok_def pageFull_def pageEmpty_def Let_def call_def)

text \<open>In v1.2 and v1.3 the invariant holds in every reachable state.\<close>

lemma reach_counter_ok: "s \<in> reach v \<Longrightarrow> v \<noteq> V1_1 \<Longrightarrow> counter_ok s"
proof (induction rule: reach.induct)
  case (start f)
  then show ?case by (simp add: counter_ok_def init_state_def)
next
  case (pass s i)
  then show ?case by (simp add: counter_ok_main_loop)
next
  case (tick s)
  then show ?case by (simp add: counter_ok_tick)
next
  case (full s)
  then show ?case by (simp add: counter_ok_callbacks)
next
  case (empty s)
  then show ?case by (simp add: counter_ok_callbacks)
qed

text \<open>
  So in v1.2 and v1.3 every firing of the interrupt finds a non-zero counter and
  decrements it without wrapping, and the handler raises \<open>stop\<close> only at zero.
\<close>

lemma no_underflow_v12_v13:
  assumes "v \<noteq> V1_1" "s \<in> reach v" "TIMSK4 s AND 0x04 \<noteq> 0"
  shows "data_amount s \<noteq> 0"
    and "unat (data_amount (TIMER4_OVF_vect v s)) = unat (data_amount s) - 1"
    and "stop (TIMER4_OVF_vect v s) \<noteq> stop s \<longrightarrow> data_amount (TIMER4_OVF_vect v s) = 0"
proof -
  from assms(3) have "TIMSK4 s \<noteq> 0" by auto
  with reach_counter_ok[OF assms(2,1)] show d: "data_amount s \<noteq> 0"
    by (simp add: counter_ok_def)
  then show "unat (data_amount (TIMER4_OVF_vect v s)) = unat (data_amount s) - 1"
    by (simp add: tick_count unat_minus_one)
  show "stop (TIMER4_OVF_vect v s) \<noteq> stop s \<longrightarrow> data_amount (TIMER4_OVF_vect v s) = 0"
    using tick_running[of s v] by (auto simp: tick_count)
qed

text \<open>
  In v1.1 the play branch assigns \<open>data_amount = wave_open ();\<close>. On a file of no
  samples the interrupt is enabled with the counter at zero, and that state is
  reachable.
\<close>

lemma v11_empty_file_reachable:
  "main_loop V1_1 (pressing 0xEF 0) (init_state V1_1 ramp) \<in> reach V1_1"
  by (intro reach.pass reach.start)

text \<open>
  Claim C5, at the input where v1.1 breaks it. Power-up, play pressed, \<open>wave_open()\<close>
  returns 0: the pass ends in \<open>DVR_PLAYING\<close> with the interrupt enabled and
  \<open>data_amount = 0\<close>. The first tick decrements the counter to \<open>0xFFFFFFFF\<close>, does not
  raise \<open>stop\<close> and leaves the interrupt enabled.
\<close>

theorem counter_underflows_v11_empty_file:
  "state (main_loop V1_1 (pressing 0xEF 0) (init_state V1_1 ramp)) = DVR_PLAYING
   \<and> TIMSK4 (main_loop V1_1 (pressing 0xEF 0) (init_state V1_1 ramp)) = 0x04
   \<and> data_amount (main_loop V1_1 (pressing 0xEF 0) (init_state V1_1 ramp)) = 0
   \<and> data_amount (TIMER4_OVF_vect V1_1
        (main_loop V1_1 (pressing 0xEF 0) (init_state V1_1 ramp))) = 0xFFFFFFFF
   \<and> stop (TIMER4_OVF_vect V1_1
        (main_loop V1_1 (pressing 0xEF 0) (init_state V1_1 ramp))) = 0
   \<and> TIMSK4 (TIMER4_OVF_vect V1_1
        (main_loop V1_1 (pressing 0xEF 0) (init_state V1_1 ramp))) = 0x04"
proof -
  let ?s = "init_state V1_1 ramp"
  let ?t = "main_loop V1_1 (pressing 0xEF 0) ?s"
  have st: "state ?s = DVR_STOPPED" by (simp add: init_state_def)
  have e: "?t = play_branch V1_1 0 ?s" by (rule main_loop_play[OF st])
  have f: "state ?t = DVR_PLAYING" "TIMSK4 ?t = 0x04" "data_amount ?t = 0" "stop ?t = 0"
    unfolding e by (simp_all add: fields_play_branch cursor_play_branch init_state_def)
  have d: "data_amount ?t \<noteq> 1" by (simp add: f)
  from f tick_count[of V1_1 ?t] tick_running[OF d, of V1_1] show ?thesis by simp
qed

end
